theory Spec2Isabelle
  imports Main
begin

section \<open>Smart Reminder: the data model\<close>

text \<open>
  The program is one Python module, \<^verbatim>\<open>app.py\<close>: a table of reminders, a form handler
  that inserts rows, a mail helper, and a job that a background scheduler runs at a fixed
  interval to mail the reminders that are due.

  A naive \<^verbatim>\<open>datetime\<close> (no time zone attached) is a point on one time line, and Python
  compares two of them by their position on it. It is modelled as an integer: the number
  of microseconds since the first instant of the calendar.

  Text is a \<^typ>\<open>string\<close> whose characters stand for code points below 256.
\<close>

type_synonym datetime = int

text \<open>
  \<^verbatim>\<open>class Reminder(db.Model)\<close>, lines 35 to 42. The column \<^verbatim>\<open>id\<close> is called
  \<open>id_col\<close> here, since \<open>id\<close> is the identity function of HOL.
\<close>

record Reminder =
  id_col :: int
  email :: string
  message :: string
  remind_at :: datetime
  sent :: bool

text \<open>
  The table \<^verbatim>\<open>reminders\<close> is the list of its rows in insertion order. The database is
  taken to answer every query and to accept every commit. \<open>id_col\<close> is the primary key:
  a well-formed table has no two rows with the same key.
\<close>

type_synonym table = "Reminder list"

definition primary_key :: "table \<Rightarrow> bool" where
  "primary_key db = distinct (map id_col db)"

text \<open>
  The key of an inserted row is given by the database, not by the program. SQLite, the
  default of \<^verbatim>\<open>DATABASE_URL\<close>, gives one more than the largest key in the table, and 1 in
  an empty table.
\<close>

definition next_id :: "table \<Rightarrow> int" where
  "next_id db = foldr max (map id_col db) 0 + 1"

text \<open>The process environment \<^verbatim>\<open>os.environ\<close> and the submitted form \<^verbatim>\<open>request.form\<close>.\<close>

type_synonym environ = "string \<rightharpoonup> string"
type_synonym form = "string \<rightharpoonup> string"

text \<open>What the module writes to its logger, one constructor for each call in the source.\<close>

datatype log_record =
    Error_not_configured
  | Info_email_sent string
  | Error_auth_failed
  | Error_smtp string
  | Error_unexpected string
  | Debug_no_pending datetime
  | Info_processing int string
  | Info_marked_sent int
  | Warning_failed int
  | Info_scheduled int string datetime

section \<open>The mail helper\<close>

text \<open>
  Lines 58 to 75 build a MIME message from the recipient and the reminder text and hand
  it to Gmail over \<^verbatim>\<open>smtplib.SMTP_SSL\<close>: connect, log in, send, quit. That exchange is
  the outside world. It is a parameter of the model: a function from the account, the
  password, the recipient, the reminder text and the state of the world to the way the
  \<^verbatim>\<open>with\<close> block ends and the next state of the world. The block either completes or
  raises; the exceptions are grouped by the handler of lines 78 to 83 that matches first.
  \<open>SMTPException\<close> stands for the SMTP errors other than a failed authentication and
  \<open>OtherException\<close> for every other subclass of \<^verbatim>\<open>Exception\<close> (a refused connection,
  a name that does not resolve, a header that cannot be written); each carries its text.
  Exceptions outside \<^verbatim>\<open>Exception\<close> (an interrupt, an exit of the interpreter) are
  not raised by the exchange and are not modelled.
\<close>

datatype exc = SMTPAuthenticationError | SMTPException string | OtherException string

type_synonym 'w smtp = "string \<Rightarrow> string \<Rightarrow> string \<Rightarrow> string \<Rightarrow> 'w \<Rightarrow> (exc + unit) \<times> 'w"

text \<open>Python's \<^verbatim>\<open>not v\<close> for a value that is \<^verbatim>\<open>None\<close> or a string.\<close>

fun falsy :: "string option \<Rightarrow> bool" where
  "falsy None = True"
| "falsy (Some s) = (s = [])"

text \<open>
  \<^verbatim>\<open>send_email\<close>, lines 49 to 84. The result is the returned boolean, the records
  logged, and the world after the call.
\<close>

definition send_email ::
  "'w smtp \<Rightarrow> environ \<Rightarrow> string \<Rightarrow> string \<Rightarrow> 'w \<Rightarrow> bool \<times> log_record list \<times> 'w" where
  "send_email smtp env to_email msg w =
     (case (env ''EMAIL_USER'', env ''EMAIL_PASS'') of
        (Some email_user, Some email_pass) \<Rightarrow>
          if falsy (Some email_user) \<or> falsy (Some email_pass)
          then (False, [Error_not_configured], w)
          else (case smtp email_user email_pass to_email msg w of
                  (Inr _, w') \<Rightarrow> (True, [Info_email_sent to_email], w')
                | (Inl SMTPAuthenticationError, w') \<Rightarrow> (False, [Error_auth_failed], w')
                | (Inl (SMTPException e), w') \<Rightarrow> (False, [Error_smtp e], w')
                | (Inl (OtherException e), w') \<Rightarrow> (False, [Error_unexpected e], w'))
      | _ \<Rightarrow> (False, [Error_not_configured], w))"

section \<open>The scheduler job\<close>

text \<open>
  The query of lines 95 to 98: the rows with \<^verbatim>\<open>remind_at <= now_ist\<close> and
  \<^verbatim>\<open>sent == False\<close>. The value \<^verbatim>\<open>now_utc\<close> of line 91 is never used.
\<close>

definition pending :: "datetime \<Rightarrow> table \<Rightarrow> Reminder list" where
  "pending now_ist db = filter (\<lambda>r. remind_at r \<le> now_ist \<and> sent r = False) db"

text \<open>
  Lines 108 and 109, \<^verbatim>\<open>reminder.sent = True\<close> followed by the commit: the update of
  the row with the reminder's key. Nothing is returned.
\<close>

definition mark_sent :: "int \<Rightarrow> table \<Rightarrow> table" where
  "mark_sent i db = map (\<lambda>r. if id_col r = i then r\<lparr>sent := True\<rparr> else r) db"

text \<open>The loop of lines 104 to 112 over the rows the query returned.\<close>

fun deliver ::
  "'w smtp \<Rightarrow> environ \<Rightarrow> Reminder list \<Rightarrow> table \<Rightarrow> 'w \<Rightarrow> table \<times> log_record list \<times> 'w" where
  "deliver smtp env [] db w = (db, [], w)"
| "deliver smtp env (reminder # rest) db w =
     (case send_email smtp env (email reminder) (message reminder) w of
        (success, sent_log, w') \<Rightarrow>
          if success
          then (case deliver smtp env rest (mark_sent (id_col reminder) db) w' of
                  (db', rest_log, w'') \<Rightarrow>
                    (db', Info_processing (id_col reminder) (email reminder) # sent_log
                          @ Info_marked_sent (id_col reminder) # rest_log, w''))
          else (case deliver smtp env rest db w' of
                  (db', rest_log, w'') \<Rightarrow>
                    (db', Info_processing (id_col reminder) (email reminder) # sent_log
                          @ Warning_failed (id_col reminder) # rest_log, w'')))"

text \<open>\<^verbatim>\<open>check_and_send_reminders\<close>, lines 88 to 112, run with the clock at \<open>now_ist\<close>.\<close>

definition check_and_send_reminders ::
  "'w smtp \<Rightarrow> environ \<Rightarrow> datetime \<Rightarrow> table \<Rightarrow> 'w \<Rightarrow> table \<times> log_record list \<times> 'w" where
  "check_and_send_reminders smtp env now_ist db w =
     (if pending now_ist db = [] then (db, [Debug_no_pending now_ist], w)
      else deliver smtp env (pending now_ist db) db w)"

section \<open>The form handler\<close>

text \<open>
  \<^verbatim>\<open>str.strip()\<close> removes the white space at both ends. Below 256 the white-space
  code points of Python are 9 to 13, 28 to 32, 133 and 160.
\<close>

definition isspace :: "char \<Rightarrow> bool" where
  "isspace c =
     (let n = (of_char c :: nat)
      in (9 \<le> n \<and> n \<le> 13) \<or> (28 \<le> n \<and> n \<le> 32) \<or> n = 133 \<or> n = 160)"

definition strip :: "string \<Rightarrow> string" where
  "strip s = rev (dropWhile isspace (rev (dropWhile isspace s)))"

text \<open>\<^verbatim>\<open>request.form.get(key, "")\<close>.\<close>

definition form_get :: "form \<Rightarrow> string \<Rightarrow> string" where
  "form_get f k = (case f k of None \<Rightarrow> [] | Some v \<Rightarrow> v)"

datatype http_method = GET | POST

datatype response = Rendered | Redirected | Internal_error

text \<open>
  A flashed message: one of the texts of the validation, with the category
  \<^verbatim>\<open>"danger"\<close>, or the confirmation with the category \<^verbatim>\<open>"success"\<close>, which shows
  the address and the time.
\<close>

datatype flash = Danger string | Success string datetime

text \<open>
  The validation of lines 141 to 158, on the three fields as stripped: the list of
  error texts, and the time of the reminder where the text of the time could be read.
  \<^verbatim>\<open>datetime.strptime\<close> with the format \<^verbatim>\<open>%Y-%m-%dT%H:%M\<close> is the parameter
  \<open>strptime\<close>: it gives the time a text denotes, or \<open>None\<close> where Python raises
  \<^verbatim>\<open>ValueError\<close>.
\<close>

definition validation ::
  "(string \<Rightarrow> datetime option) \<Rightarrow> string \<Rightarrow> string \<Rightarrow> string \<Rightarrow> datetime
     \<Rightarrow> datetime option \<times> string list" where
  "validation strptime = (\<lambda>email message remind_str now_ist.
      let errors = (if email = [] then [''Email address is required.''] else [])
                 @ (if message = [] then [''Reminder message is required.''] else [])
                 @ (if remind_str = [] then [''Date & time is required.''] else [])
      in if remind_str \<noteq> [] then
           (case strptime remind_str of
              Some remind_dt \<Rightarrow>
                (Some remind_dt,
                 if remind_dt \<le> now_ist
                 then errors @ [''Scheduled time must be in the future.'']
                 else errors)
            | None \<Rightarrow> (None, errors @ [''Invalid date/time format.'']))
         else (None, errors))"

text \<open>
  \<^verbatim>\<open>index\<close>, lines 134 to 177. The column \<^verbatim>\<open>remind_at\<close> does not accept
  \<^verbatim>\<open>None\<close>: a commit of such a row raises, and the request ends in an error.
\<close>

definition index ::
  "(string \<Rightarrow> datetime option) \<Rightarrow> http_method \<Rightarrow> form \<Rightarrow> datetime \<Rightarrow> table
     \<Rightarrow> response \<times> flash list \<times> log_record list \<times> table" where
  "index strptime method f now_ist db =
     (if method = POST then
        (let email = strip (form_get f ''email'');
             message = strip (form_get f ''message'');
             remind_str = strip (form_get f ''remind_at'')
         in case validation strptime email message remind_str now_ist of
              (remind_dt, errors) \<Rightarrow>
                if errors \<noteq> [] then (Redirected, map Danger errors, [], db)
                else (case remind_dt of
                        None \<Rightarrow> (Internal_error, [], [], db)
                      | Some dt \<Rightarrow>
                          (Redirected, [Success email dt],
                           [Info_scheduled (next_id db) email dt],
                           db @ [\<lparr>id_col = next_id db, email = email, message = message,
                                   remind_at = dt, sent = False\<rparr>])))
      else (Rendered, [], [], db))"

section \<open>The running system\<close>

text \<open>
  Once started, the system does two things: the scheduler fires the job (lines 120 to
  129), and a request reaches the form handler. A run is a sequence of these, each with
  the reading of the clock at that moment.
\<close>

datatype action = Tick datetime | Request http_method form datetime

fun step ::
  "'w smtp \<Rightarrow> environ \<Rightarrow> (string \<Rightarrow> datetime option) \<Rightarrow> action \<Rightarrow> table \<Rightarrow> 'w
     \<Rightarrow> table \<times> log_record list \<times> 'w" where
  "step smtp env strptime (Tick now_ist) db w = check_and_send_reminders smtp env now_ist db w"
| "step smtp env strptime (Request method f now_ist) db w =
     (case index strptime method f now_ist db of (_, _, lg, db') \<Rightarrow> (db', lg, w))"

fun run ::
  "'w smtp \<Rightarrow> environ \<Rightarrow> (string \<Rightarrow> datetime option) \<Rightarrow> action list \<Rightarrow> table \<Rightarrow> 'w
     \<Rightarrow> table \<times> log_record list \<times> 'w" where
  "run smtp env strptime [] db w = (db, [], w)"
| "run smtp env strptime (a # as) db w =
     (case step smtp env strptime a db w of
        (db1, log1, w1) \<Rightarrow>
          (case run smtp env strptime as db1 w1 of
             (db2, log2, w2) \<Rightarrow> (db2, log1 @ log2, w2)))"

section \<open>Observations and the store contract\<close>

text \<open>The keys of the reminders the job took up, read off its log in order.\<close>

fun processed :: "log_record list \<Rightarrow> int list" where
  "processed [] = []"
| "processed (Info_processing i e # lg) = i # processed lg"
| "processed (_ # lg) = processed lg"


section \<open>Concrete surroundings for worked examples\<close>

text \<open>
  A world that is a script: the list of the ways the coming exchanges with the mail
  server end. An exchange beyond the script finds the connection refused.
\<close>

definition smtp_script :: "((exc + unit) list) smtp" where
  "smtp_script u p t m w =
     (case w of [] \<Rightarrow> (Inl (OtherException ''connection refused''), [])
              | x # xs \<Rightarrow> (x, xs))"

definition env_configured :: environ where
  "env_configured = map_of [(''EMAIL_USER'', ''me@example.org''), (''EMAIL_PASS'', ''secret'')]"

definition env_unconfigured :: environ where
  "env_unconfigured = map_of [(''EMAIL_USER'', ''me@example.org'')]"

text \<open>A parser that knows two texts, standing at the times 100 and 200.\<close>

definition strptime_two :: "string \<Rightarrow> datetime option" where
  "strptime_two s =
     (if s = ''2030-01-01T09:00'' then Some 100
      else if s = ''2030-01-01T09:01'' then Some 200 else None)"

definition reminder_a :: Reminder where
  "reminder_a = \<lparr>id_col = 1, email = ''a@example.org'', message = ''water the plants'',
                  remind_at = 100, sent = False\<rparr>"

definition reminder_b :: Reminder where
  "reminder_b = \<lparr>id_col = 2, email = ''b@example.org'', message = ''call home'',
                  remind_at = 200, sent = False\<rparr>"

section \<open>The update of the flag\<close>

lemma map_id_mark_sent: "map id_col (mark_sent i db) = map id_col db"
  by (simp add: mark_sent_def)

lemma mark_sent_other: "r \<in> set db \<Longrightarrow> id_col r \<noteq> i \<Longrightarrow> r \<in> set (mark_sent i db)"
  unfolding mark_sent_def set_map by (rule image_eqI[where x=r]) simp_all

lemma mark_sent_keeps_sent: "r \<in> set db \<Longrightarrow> sent r \<Longrightarrow> r \<in> set (mark_sent i db)"
  unfolding mark_sent_def set_map by (rule image_eqI[where x=r]) simp_all

lemma mark_sent_hit: "r \<in> set db \<Longrightarrow> id_col r = i \<Longrightarrow> r\<lparr>sent := True\<rparr> \<in> set (mark_sent i db)"
  unfolding mark_sent_def set_map by (rule image_eqI[where x=r]) simp_all

lemma mark_sent_sets: "r \<in> set (mark_sent i db) \<Longrightarrow> id_col r = i \<Longrightarrow> sent r"
proof -
  assume a: "r \<in> set (mark_sent i db)" and b: "id_col r = i"
  from a obtain q where r: "r = (if id_col q = i then q\<lparr>sent := True\<rparr> else q)"
    unfolding mark_sent_def set_map by blast
  show "sent r"
  proof (cases "id_col q = i")
    case True with r show ?thesis by simp
  next
    case False with r b show ?thesis by simp
  qed
qed

lemma mark_sent_mono:
  assumes "\<forall>r\<in>set db. id_col r = i \<longrightarrow> sent r"
  shows "\<forall>r\<in>set (mark_sent j db). id_col r = i \<longrightarrow> sent r"
proof (intro ballI impI)
  fix r assume a: "r \<in> set (mark_sent j db)" and b: "id_col r = i"
  from a obtain q where q: "q \<in> set db"
    and r: "r = (if id_col q = j then q\<lparr>sent := True\<rparr> else q)"
    unfolding mark_sent_def set_map by blast
  show "sent r"
  proof (cases "id_col q = j")
    case True with r show ?thesis by simp
  next
    case False with r b q assms show ?thesis by simp
  qed
qed

section \<open>The ways a call of the mail helper ends\<close>

lemma send_email_cases:
  obtains (not_configured) "send_email smtp env t m w = (False, [Error_not_configured], w)"
  | (sent) w1 where "send_email smtp env t m w = (True, [Info_email_sent t], w1)"
  | (auth) w1 where "send_email smtp env t m w = (False, [Error_auth_failed], w1)"
  | (smtp) e w1 where "send_email smtp env t m w = (False, [Error_smtp e], w1)"
  | (other) e w1 where "send_email smtp env t m w = (False, [Error_unexpected e], w1)"
proof (cases "env ''EMAIL_USER''")
  case None
  then have "send_email smtp env t m w = (False, [Error_not_configured], w)"
    by (simp add: send_email_def)
  then show ?thesis by (rule not_configured)
next
  case (Some u)
  note u = this
  show ?thesis
  proof (cases "env ''EMAIL_PASS''")
    case None
    with u have "send_email smtp env t m w = (False, [Error_not_configured], w)"
      by (simp add: send_email_def)
    then show ?thesis by (rule not_configured)
  next
    case (Some p)
    note p = this
    show ?thesis
    proof (cases "u = [] \<or> p = []")
      case True
      with u p have "send_email smtp env t m w = (False, [Error_not_configured], w)"
        by (auto simp add: send_email_def)
      then show ?thesis by (rule not_configured)
    next
      case False
      obtain res w1 where x: "smtp u p t m w = (res, w1)"
        by (cases "smtp u p t m w") auto
      show ?thesis
      proof (cases res)
        case (Inr a)
        with u p False x have "send_email smtp env t m w = (True, [Info_email_sent t], w1)"
          by (simp add: send_email_def)
        then show ?thesis by (rule sent)
      next
        case (Inl ex)
        show ?thesis
        proof (cases ex)
          case SMTPAuthenticationError
          with Inl u p False x
          have "send_email smtp env t m w = (False, [Error_auth_failed], w1)"
            by (simp add: send_email_def)
          then show ?thesis by (rule auth)
        next
          case (SMTPException e)
          with Inl u p False x
          have "send_email smtp env t m w = (False, [Error_smtp e], w1)"
            by (simp add: send_email_def)
          then show ?thesis by (rule smtp)
        next
          case (OtherException e)
          with Inl u p False x
          have "send_email smtp env t m w = (False, [Error_unexpected e], w1)"
            by (simp add: send_email_def)
          then show ?thesis by (rule other)
        qed
      qed
    qed
  qed
qed

lemma send_email_log:
  assumes "send_email smtp env t m w = (b, lg, w')"
  shows "Info_marked_sent i \<notin> set lg" and "Warning_failed i \<notin> set lg"
    and "Info_processing i e \<notin> set lg" and "processed lg = []"
proof -
  have "Info_marked_sent i \<notin> set lg \<and> Warning_failed i \<notin> set lg
      \<and> Info_processing i e \<notin> set lg \<and> processed lg = []"
    using assms by (cases rule: send_email_cases[of smtp env t m w]) auto
  then show "Info_marked_sent i \<notin> set lg" and "Warning_failed i \<notin> set lg"
    and "Info_processing i e \<notin> set lg" and "processed lg = []" by simp_all
qed

section \<open>The loop of the job\<close>

lemma deliver_Cons_cases:
  assumes "deliver smtp env (p # ps) db w = (db', lg, w')"
  obtains (ok) l1 w1 l2 where
      "send_email smtp env (email p) (message p) w = (True, l1, w1)"
      "deliver smtp env ps (mark_sent (id_col p) db) w1 = (db', l2, w')"
      "lg = Info_processing (id_col p) (email p) # l1 @ Info_marked_sent (id_col p) # l2"
  | (failed) l1 w1 l2 where
      "send_email smtp env (email p) (message p) w = (False, l1, w1)"
      "deliver smtp env ps db w1 = (db', l2, w')"
      "lg = Info_processing (id_col p) (email p) # l1 @ Warning_failed (id_col p) # l2"
proof -
  obtain b l1 w1 where se: "send_email smtp env (email p) (message p) w = (b, l1, w1)"
    by (cases "send_email smtp env (email p) (message p) w") auto
  show ?thesis
  proof (cases b)
    case True
    obtain db2 l2 w2 where d: "deliver smtp env ps (mark_sent (id_col p) db) w1 = (db2, l2, w2)"
      by (cases "deliver smtp env ps (mark_sent (id_col p) db) w1") auto
    from assms se True d show ?thesis by (intro ok[of l1 w1 l2]) simp_all
  next
    case False
    obtain db2 l2 w2 where d: "deliver smtp env ps db w1 = (db2, l2, w2)"
      by (cases "deliver smtp env ps db w1") auto
    from assms se False d show ?thesis by (intro failed[of l1 w1 l2]) simp_all
  qed
qed

lemma deliver_ids:
  "deliver smtp env ps db w = (db', lg, w') \<Longrightarrow> map id_col db' = map id_col db"
proof (induction ps arbitrary: db w db' lg w')
  case Nil then show ?case by simp
next
  case (Cons p ps)
  from Cons.prems show ?case
  proof (cases rule: deliver_Cons_cases)
    case (ok l1 w1 l2)
    from Cons.IH[OF ok(2)] show ?thesis by (simp add: map_id_mark_sent)
  next
    case (failed l1 w1 l2)
    from Cons.IH[OF failed(2)] show ?thesis .
  qed
qed

lemma deliver_log_ids:
  assumes "deliver smtp env ps db w = (db', lg, w')"
  shows "Info_marked_sent i \<in> set lg \<Longrightarrow> i \<in> id_col ` set ps"
    and "Warning_failed i \<in> set lg \<Longrightarrow> i \<in> id_col ` set ps"
proof -
  have "(Info_marked_sent i \<in> set lg \<or> Warning_failed i \<in> set lg) \<longrightarrow> i \<in> id_col ` set ps"
    using assms
  proof (induction ps arbitrary: db w db' lg w')
    case Nil then show ?case by simp
  next
    case (Cons p ps)
    from Cons.prems show ?case
    proof (cases rule: deliver_Cons_cases)
      case (ok l1 w1 l2)
      from Cons.IH[OF ok(2)] send_email_log(1,2)[OF ok(1)] ok(3) show ?thesis by auto
    next
      case (failed l1 w1 l2)
      from Cons.IH[OF failed(2)] send_email_log(1,2)[OF failed(1)] failed(3)
      show ?thesis by auto
    qed
  qed
  then show "Info_marked_sent i \<in> set lg \<Longrightarrow> i \<in> id_col ` set ps"
    and "Warning_failed i \<in> set lg \<Longrightarrow> i \<in> id_col ` set ps" by simp_all
qed

lemma deliver_failed_not_marked:
  "deliver smtp env ps db w = (db', lg, w') \<Longrightarrow> distinct (map id_col ps) \<Longrightarrow>
     Warning_failed i \<in> set lg \<Longrightarrow> Info_marked_sent i \<notin> set lg"
proof (induction ps arbitrary: db w db' lg w')
  case Nil then show ?case by simp
next
  case (Cons p ps)
  from Cons.prems(2) have dist: "distinct (map id_col ps)"
    and fresh: "id_col p \<notin> id_col ` set ps" by simp_all
  from Cons.prems(1) show ?case
  proof (cases rule: deliver_Cons_cases)
    case (ok l1 w1 l2)
    from Cons.prems(3) ok(3) send_email_log(1,2)[OF ok(1)]
    have f: "Warning_failed i \<in> set l2" by auto
    from deliver_log_ids(2)[OF ok(2) f] have "i \<in> id_col ` set ps" .
    with fresh have "i \<noteq> id_col p" by (cases "i = id_col p") simp_all
    with Cons.IH[OF ok(2) dist f] ok(3) send_email_log(1,2)[OF ok(1)] show ?thesis by auto
  next
    case (failed l1 w1 l2)
    show ?thesis
    proof (cases "i = id_col p")
      case True
      have "Info_marked_sent i \<notin> set l2"
      proof
        assume "Info_marked_sent i \<in> set l2"
        then have "i \<in> id_col ` set ps" by (rule deliver_log_ids(1)[OF failed(2)])
        with True fresh show False by simp
      qed
      with failed(3) send_email_log(1,2)[OF failed(1)] show ?thesis by auto
    next
      case False
      with Cons.prems(3) failed(3) send_email_log(1,2)[OF failed(1)]
      have f: "Warning_failed i \<in> set l2" by auto
      with Cons.IH[OF failed(2) dist f] failed(3) send_email_log(1,2)[OF failed(1)]
      show ?thesis by auto
    qed
  qed
qed

lemma deliver_unmarked_kept:
  "deliver smtp env ps db w = (db', lg, w') \<Longrightarrow> r \<in> set db \<Longrightarrow>
     Info_marked_sent (id_col r) \<notin> set lg \<Longrightarrow> r \<in> set db'"
proof (induction ps arbitrary: db w db' lg w')
  case Nil then show ?case by simp
next
  case (Cons p ps)
  from Cons.prems(1) show ?case
  proof (cases rule: deliver_Cons_cases)
    case (ok l1 w1 l2)
    from Cons.prems(3) ok(3) have ne: "id_col r \<noteq> id_col p"
      and nm: "Info_marked_sent (id_col r) \<notin> set l2" by auto
    from mark_sent_other[OF Cons.prems(2) ne] have "r \<in> set (mark_sent (id_col p) db)" .
    from Cons.IH[OF ok(2) this nm] show ?thesis .
  next
    case (failed l1 w1 l2)
    from Cons.prems(3) failed(3) have nm: "Info_marked_sent (id_col r) \<notin> set l2" by auto
    from Cons.IH[OF failed(2) Cons.prems(2) nm] show ?thesis .
  qed
qed

lemma deliver_sent_kept:
  "deliver smtp env ps db w = (db', lg, w') \<Longrightarrow> r \<in> set db \<Longrightarrow> sent r \<Longrightarrow> r \<in> set db'"
proof (induction ps arbitrary: db w db' lg w')
  case Nil then show ?case by simp
next
  case (Cons p ps)
  from Cons.prems(1) show ?case
  proof (cases rule: deliver_Cons_cases)
    case (ok l1 w1 l2)
    from mark_sent_keeps_sent[OF Cons.prems(2,3)] have "r \<in> set (mark_sent (id_col p) db)" .
    from Cons.IH[OF ok(2) this Cons.prems(3)] show ?thesis .
  next
    case (failed l1 w1 l2)
    from Cons.IH[OF failed(2) Cons.prems(2,3)] show ?thesis .
  qed
qed

lemma deliver_mono:
  "deliver smtp env ps db w = (db', lg, w') \<Longrightarrow> \<forall>r\<in>set db. id_col r = i \<longrightarrow> sent r \<Longrightarrow>
     \<forall>r\<in>set db'. id_col r = i \<longrightarrow> sent r"
proof (induction ps arbitrary: db w db' lg w')
  case Nil then show ?case by simp
next
  case (Cons p ps)
  from Cons.prems(1) show ?case
  proof (cases rule: deliver_Cons_cases)
    case (ok l1 w1 l2)
    from Cons.IH[OF ok(2) mark_sent_mono[OF Cons.prems(2)]] show ?thesis .
  next
    case (failed l1 w1 l2)
    from Cons.IH[OF failed(2) Cons.prems(2)] show ?thesis .
  qed
qed

lemma deliver_marked_sent:
  "deliver smtp env ps db w = (db', lg, w') \<Longrightarrow> Info_marked_sent i \<in> set lg \<Longrightarrow>
     \<forall>r\<in>set db'. id_col r = i \<longrightarrow> sent r"
proof (induction ps arbitrary: db w db' lg w')
  case Nil then show ?case by simp
next
  case (Cons p ps)
  from Cons.prems(1) show ?case
  proof (cases rule: deliver_Cons_cases)
    case (ok l1 w1 l2)
    from Cons.prems(2) ok(3) send_email_log(1)[OF ok(1)]
    have "i = id_col p \<or> Info_marked_sent i \<in> set l2" by auto
    then show ?thesis
    proof
      assume "i = id_col p"
      then have "\<forall>r\<in>set (mark_sent (id_col p) db). id_col r = i \<longrightarrow> sent r"
        using mark_sent_sets by blast
      from deliver_mono[OF ok(2) this] show ?thesis .
    next
      assume "Info_marked_sent i \<in> set l2"
      from Cons.IH[OF ok(2) this] show ?thesis .
    qed
  next
    case (failed l1 w1 l2)
    from Cons.prems(2) failed(3) send_email_log(1)[OF failed(1)]
    have "Info_marked_sent i \<in> set l2" by auto
    from Cons.IH[OF failed(2) this] show ?thesis .
  qed
qed

lemma deliver_marked_row:
  "deliver smtp env ps db w = (db', lg, w') \<Longrightarrow> r \<in> set db \<Longrightarrow>
     Info_marked_sent (id_col r) \<in> set lg \<Longrightarrow> r\<lparr>sent := True\<rparr> \<in> set db'"
proof (induction ps arbitrary: db w db' lg w')
  case Nil then show ?case by simp
next
  case (Cons p ps)
  from Cons.prems(1) show ?case
  proof (cases rule: deliver_Cons_cases)
    case (ok l1 w1 l2)
    show ?thesis
    proof (cases "id_col r = id_col p")
      case True
      from mark_sent_hit[OF Cons.prems(2) True]
      have "r\<lparr>sent := True\<rparr> \<in> set (mark_sent (id_col p) db)" .
      from deliver_sent_kept[OF ok(2) this] show ?thesis by simp
    next
      case False
      with Cons.prems(3) ok(3) send_email_log(1)[OF ok(1)]
      have m: "Info_marked_sent (id_col r) \<in> set l2" by auto
      from mark_sent_other[OF Cons.prems(2) False]
      have "r \<in> set (mark_sent (id_col p) db)" .
      from Cons.IH[OF ok(2) this m] show ?thesis .
    qed
  next
    case (failed l1 w1 l2)
    from Cons.prems(3) failed(3) send_email_log(1)[OF failed(1)]
    have "Info_marked_sent (id_col r) \<in> set l2" by auto
    from Cons.IH[OF failed(2) Cons.prems(2) this] show ?thesis .
  qed
qed

lemma processed_append: "processed (xs @ ys) = processed xs @ processed ys"
  by (induction xs rule: processed.induct) simp_all

lemma deliver_processed:
  "deliver smtp env ps db w = (db', lg, w') \<Longrightarrow> processed lg = map id_col ps"
proof (induction ps arbitrary: db w db' lg w')
  case Nil then show ?case by simp
next
  case (Cons p ps)
  from Cons.prems show ?case
  proof (cases rule: deliver_Cons_cases)
    case (ok l1 w1 l2)
    from Cons.IH[OF ok(2)] send_email_log(4)[OF ok(1)] ok(3) show ?thesis
      by (simp add: processed_append)
  next
    case (failed l1 w1 l2)
    from Cons.IH[OF failed(2)] send_email_log(4)[OF failed(1)] failed(3) show ?thesis
      by (simp add: processed_append)
  qed
qed

section \<open>Selection of the due reminders\<close>

lemma set_pending:
  "set (pending now db) = {r \<in> set db. \<not> sent r \<and> remind_at r \<le> now}"
  by (auto simp: pending_def)

lemma tick_processed:
  "processed (fst (snd (check_and_send_reminders smtp env now db w))) = map id_col (pending now db)"
proof (cases "pending now db = []")
  case True
  then show ?thesis by (simp add: check_and_send_reminders_def)
next
  case False
  obtain db' lg w' where d: "deliver smtp env (pending now db) db w = (db', lg, w')"
    by (cases "deliver smtp env (pending now db) db w") auto
  from deliver_processed[OF d] False d show ?thesis
    by (simp add: check_and_send_reminders_def)
qed

lemma pending_mark_sent:
  "pending now (mark_sent i db) = filter (\<lambda>r. id_col r \<noteq> i) (pending now db)"
proof (induction db)
  case Nil
  show ?case by (simp add: pending_def mark_sent_def)
next
  case (Cons r db)
  have tl: "pending now (mark_sent i (r # db))
      = pending now [if id_col r = i then r\<lparr>sent := True\<rparr> else r] @ pending now (mark_sent i db)"
    by (simp add: pending_def mark_sent_def)
  have hd: "pending now [if id_col r = i then r\<lparr>sent := True\<rparr> else r]
      = filter (\<lambda>r. id_col r \<noteq> i) (pending now [r])"
    by (cases "id_col r = i") (simp_all add: pending_def)
  have "pending now (r # db) = pending now [r] @ pending now db"
    by (simp add: pending_def)
  with tl hd Cons.IH show ?case by simp
qed

text \<open>
  Claim C1. The query of the job returns exactly the rows of the table that are not sent
  and whose time is not after the clock, whatever the table and the clock: a row whose
  time is after the clock is never among them, and an unsent row whose time has come is
  among them in every state of the table. The job takes up exactly these rows, each once
  and in the order of the table. Once the flag of a key is updated, the rows of that key,
  and no others, leave the selection.
\<close>

theorem due_selection_exact:
  "set (pending now db) = {r \<in> set db. sent r = False \<and> remind_at r \<le> now}
   \<and> pending now db = filter (\<lambda>r. sent r = False \<and> remind_at r \<le> now) db
   \<and> processed (fst (snd (check_and_send_reminders smtp env now db w)))
       = map id_col (pending now db)
   \<and> pending now (mark_sent i db) = filter (\<lambda>r. id_col r \<noteq> i) (pending now db)"
proof (intro conjI)
  show "set (pending now db) = {r \<in> set db. sent r = False \<and> remind_at r \<le> now}"
    using set_pending[of now db] by simp
  show "pending now db = filter (\<lambda>r. sent r = False \<and> remind_at r \<le> now) db"
    unfolding pending_def by (rule filter_cong) auto
  show "processed (fst (snd (check_and_send_reminders smtp env now db w)))
       = map id_col (pending now db)"
    by (rule tick_processed)
  show "pending now (mark_sent i db) = filter (\<lambda>r. id_col r \<noteq> i) (pending now db)"
    by (rule pending_mark_sent)
qed

section \<open>The transition of the flag\<close>











section \<open>The table, the form handler and the loop on a longer list\<close>

lemma tick_cases:
  obtains (idle) "pending now db = []"
      "check_and_send_reminders smtp env now db w = (db, [Debug_no_pending now], w)"
  | (busy) "pending now db \<noteq> []"
      "check_and_send_reminders smtp env now db w = deliver smtp env (pending now db) db w"
  by (cases "pending now db = []") (simp_all add: check_and_send_reminders_def)

lemma primary_key_unique:
  assumes "primary_key db" "p \<in> set db" "r \<in> set db" "id_col p = id_col r"
  shows "p = r"
proof -
  from assms(1) have "inj_on id_col (set db)" by (simp add: primary_key_def distinct_map)
  from inj_onD[OF this assms(4) assms(2) assms(3)] show ?thesis .
qed

lemma primary_key_pending: "primary_key db \<Longrightarrow> distinct (map id_col (pending now db))"
  unfolding primary_key_def pending_def by (rule distinct_map_filter)

lemma pending_member:
  "(r \<in> set (pending now db)) = (r \<in> set db \<and> \<not> sent r \<and> remind_at r \<le> now)"
  by (auto simp: pending_def)

lemma next_id_above: "r \<in> set db \<Longrightarrow> id_col r < next_id db"
proof -
  have "x \<in> set xs \<Longrightarrow> x \<le> foldr max xs (0::int)" for x xs
    by (induction xs) auto
  from this[of "id_col r" "map id_col db"] show "r \<in> set db \<Longrightarrow> id_col r < next_id db"
    by (simp add: next_id_def)
qed

lemma deliver_append:
  "deliver smtp env (xs @ ys) db w =
     (case deliver smtp env xs db w of
        (db1, l1, w1) \<Rightarrow>
          (case deliver smtp env ys db1 w1 of (db2, l2, w2) \<Rightarrow> (db2, l1 @ l2, w2)))"
proof (induction xs arbitrary: db w)
  case Nil
  show ?case by (simp split: prod.splits)
next
  case (Cons p ps)
  obtain b l1 w1 where se: "send_email smtp env (email p) (message p) w = (b, l1, w1)"
    by (cases "send_email smtp env (email p) (message p) w") auto
  show ?case
  proof (cases b)
    case True
    with se Cons.IH[of "mark_sent (id_col p) db" w1] show ?thesis
      by (simp split: prod.splits)
  next
    case False
    with se Cons.IH[of db w1] show ?thesis
      by (simp split: prod.splits)
  qed
qed


lemma index_get: "index strptime GET f now db = (Rendered, [], [], db)"
  by (simp add: index_def)

lemma validation_errors:
  "(snd (validation strptime e m s now) = [])
     = (e \<noteq> [] \<and> m \<noteq> [] \<and> s \<noteq> [] \<and> (\<exists>dt. strptime s = Some dt \<and> now < dt))"
  by (cases "strptime s") (auto simp: validation_def Let_def)

lemma validation_time:
  "s \<noteq> [] \<Longrightarrow> fst (validation strptime e m s now) = strptime s"
  by (cases "strptime s") (auto simp: validation_def Let_def)

lemma index_accept:
  assumes "strip (form_get f ''email'') \<noteq> []" "strip (form_get f ''message'') \<noteq> []"
    "strip (form_get f ''remind_at'') \<noteq> []"
    "strptime (strip (form_get f ''remind_at'')) = Some dt" "now < dt"
  shows "index strptime POST f now db =
     (Redirected, [Success (strip (form_get f ''email'')) dt],
      [Info_scheduled (next_id db) (strip (form_get f ''email'')) dt],
      db @ [\<lparr>id_col = next_id db, email = strip (form_get f ''email''),
              message = strip (form_get f ''message''), remind_at = dt, sent = False\<rparr>])"
proof -
  obtain t errs where v: "validation strptime (strip (form_get f ''email''))
      (strip (form_get f ''message'')) (strip (form_get f ''remind_at'')) now = (t, errs)"
    by (cases "validation strptime (strip (form_get f ''email''))
      (strip (form_get f ''message'')) (strip (form_get f ''remind_at'')) now") auto
  from validation_errors[of strptime "strip (form_get f ''email'')"
      "strip (form_get f ''message'')" "strip (form_get f ''remind_at'')" now] v assms
  have e: "errs = []" by simp
  from validation_time[OF assms(3), of strptime "strip (form_get f ''email'')"
      "strip (form_get f ''message'')" now] v assms(4)
  have t: "t = Some dt" by simp
  from v e t show ?thesis by (simp add: index_def Let_def)
qed

lemma index_reject:
  assumes "\<not> (strip (form_get f ''email'') \<noteq> [] \<and> strip (form_get f ''message'') \<noteq> []
    \<and> strip (form_get f ''remind_at'') \<noteq> []
    \<and> (\<exists>dt. strptime (strip (form_get f ''remind_at'')) = Some dt \<and> now < dt))"
  shows "\<exists>errs. errs \<noteq> [] \<and> index strptime POST f now db = (Redirected, map Danger errs, [], db)"
proof -
  obtain t errs where v: "validation strptime (strip (form_get f ''email''))
      (strip (form_get f ''message'')) (strip (form_get f ''remind_at'')) now = (t, errs)"
    by (cases "validation strptime (strip (form_get f ''email''))
      (strip (form_get f ''message'')) (strip (form_get f ''remind_at'')) now") auto
  from validation_errors[of strptime "strip (form_get f ''email'')"
      "strip (form_get f ''message'')" "strip (form_get f ''remind_at'')" now] v assms
  have e: "errs \<noteq> []" by simp
  with v have "index strptime POST f now db = (Redirected, map Danger errs, [], db)"
    by (simp add: index_def Let_def)
  with e show ?thesis by blast
qed

lemma index_cases:
  obtains (unchanged) resp fl where "index strptime method f now db = (resp, fl, [], db)"
  | (inserted) e m dt where
      "index strptime method f now db =
         (Redirected, [Success e dt], [Info_scheduled (next_id db) e dt],
          db @ [\<lparr>id_col = next_id db, email = e, message = m, remind_at = dt, sent = False\<rparr>])"
proof (cases "method")
  case GET
  with index_get[of strptime f now db] show ?thesis by (intro unchanged) simp
next
  case POST
  show ?thesis
  proof (cases "strip (form_get f ''email'') \<noteq> [] \<and> strip (form_get f ''message'') \<noteq> []
    \<and> strip (form_get f ''remind_at'') \<noteq> []
    \<and> (\<exists>dt. strptime (strip (form_get f ''remind_at'')) = Some dt \<and> now < dt)")
    case False
    from False index_reject[of f strptime now db] obtain errs where
      "index strptime POST f now db = (Redirected, map Danger errs, [], db)" by blast
    with POST show ?thesis by (intro unchanged) simp
  next
    case True
    then obtain dt where "strptime (strip (form_get f ''remind_at'')) = Some dt" "now < dt"
      by blast
    with True index_accept[of f strptime dt now db] POST show ?thesis
      by (intro inserted) simp
  qed
qed

section \<open>Retry after a failed mail\<close>

lemma tick_ids:
  "check_and_send_reminders smtp env now db w = (db', lg, w') \<Longrightarrow> map id_col db' = map id_col db"
  by (cases rule: tick_cases[of now db smtp env w]) (auto dest: deliver_ids)

lemma tick_mono:
  "check_and_send_reminders smtp env now db w = (db', lg, w') \<Longrightarrow>
     \<forall>r\<in>set db. id_col r = i \<longrightarrow> sent r \<Longrightarrow> \<forall>r\<in>set db'. id_col r = i \<longrightarrow> sent r"
proof (cases rule: tick_cases[of now db smtp env w])
  case idle
  assume "check_and_send_reminders smtp env now db w = (db', lg, w')"
    and "\<forall>r\<in>set db. id_col r = i \<longrightarrow> sent r"
  with idle show ?thesis by simp
next
  case busy
  assume a: "check_and_send_reminders smtp env now db w = (db', lg, w')"
    and b: "\<forall>r\<in>set db. id_col r = i \<longrightarrow> sent r"
  from a busy have "deliver smtp env (pending now db) db w = (db', lg, w')" by simp
  from deliver_mono[OF this b] show ?thesis .
qed

lemma tick_sent_kept:
  assumes "check_and_send_reminders smtp env now db w = (db', lg, w')" "r \<in> set db" "sent r"
  shows "r \<in> set db'"
proof (cases rule: tick_cases[of now db smtp env w])
  case idle
  with assms show ?thesis by simp
next
  case busy
  with assms(1) have "deliver smtp env (pending now db) db w = (db', lg, w')" by simp
  from deliver_sent_kept[OF this assms(2,3)] show ?thesis .
qed

lemma deliver_success_logged:
  assumes "pending now db = before @ B # after"
    and "deliver smtp env before db w = (db1, lg1, w1)"
    and "fst (send_email smtp env (email B) (message B) w1)"
    and "deliver smtp env (pending now db) db w = (db', lg, w')"
  shows "Info_marked_sent (id_col B) \<in> set lg"
proof -
  obtain b l w2 where se: "send_email smtp env (email B) (message B) w1 = (b, l, w2)"
    by (cases "send_email smtp env (email B) (message B) w1") auto
  with assms(3) have b: "b" by simp
  obtain db3 l3 w3 where r: "deliver smtp env after (mark_sent (id_col B) db1) w2 = (db3, l3, w3)"
    by (cases "deliver smtp env after (mark_sent (id_col B) db1) w2") auto
  from se b r have "deliver smtp env (B # after) db1 w1
      = (db3, Info_processing (id_col B) (email B) # l @ Info_marked_sent (id_col B) # l3, w3)"
    by simp
  with assms(2) have "deliver smtp env (before @ B # after) db w
      = (db3, lg1 @ Info_processing (id_col B) (email B) # l @ Info_marked_sent (id_col B) # l3, w3)"
    by (simp add: deliver_append)
  with assms(1,4) have "lg = lg1 @ Info_processing (id_col B) (email B) # l
      @ Info_marked_sent (id_col B) # l3" by simp
  then show ?thesis by simp
qed

lemma deliver_failure_logged:
  assumes "pending now db = before @ R # after"
    and "deliver smtp env before db w = (db1, lg1, w1)"
    and "\<not> fst (send_email smtp env (email R) (message R) w1)"
    and "deliver smtp env (pending now db) db w = (db', lg, w')"
  shows "Warning_failed (id_col R) \<in> set lg"
proof -
  obtain b l w2 where se: "send_email smtp env (email R) (message R) w1 = (b, l, w2)"
    by (cases "send_email smtp env (email R) (message R) w1") auto
  with assms(3) have b: "\<not> b" by simp
  obtain db3 l3 w3 where r: "deliver smtp env after db1 w2 = (db3, l3, w3)"
    by (cases "deliver smtp env after db1 w2") auto
  from se b r have "deliver smtp env (R # after) db1 w1
      = (db3, Info_processing (id_col R) (email R) # l @ Warning_failed (id_col R) # l3, w3)"
    by simp
  with assms(2) have "deliver smtp env (before @ R # after) db w
      = (db3, lg1 @ Info_processing (id_col R) (email R) # l @ Warning_failed (id_col R) # l3, w3)"
    by (simp add: deliver_append)
  with assms(1,4) have "lg = lg1 @ Info_processing (id_col R) (email R) # l
      @ Warning_failed (id_col R) # l3" by simp
  then show ?thesis by simp
qed


lemma example_primary_key: "primary_key [reminder_a, reminder_b]"
  by (simp add: primary_key_def reminder_a_def reminder_b_def)

lemma example_tick:
  "check_and_send_reminders smtp_script env_configured 250 [reminder_a, reminder_b]
       [Inl (OtherException ''boom''), Inr ()]
     = ([reminder_a, reminder_b\<lparr>sent := True\<rparr>],
        [Info_processing 1 ''a@example.org'', Error_unexpected ''boom'', Warning_failed 1,
         Info_processing 2 ''b@example.org'', Info_email_sent ''b@example.org'',
         Info_marked_sent 2],
        [])"
  by (simp add: check_and_send_reminders_def pending_def send_email_def smtp_script_def
      env_configured_def mark_sent_def reminder_a_def reminder_b_def)


section \<open>No second mail after a success\<close>

lemma step_cases:
  obtains (tick) now where "a = Tick now"
      "step smtp env strptime a db w = check_and_send_reminders smtp env now db w"
  | (unchanged) "step smtp env strptime a db w = (db, [], w)"
  | (inserted) e m dt where
      "step smtp env strptime a db w =
         (db @ [\<lparr>id_col = next_id db, email = e, message = m, remind_at = dt, sent = False\<rparr>],
          [Info_scheduled (next_id db) e dt], w)"
proof (cases a)
  case (Tick now)
  then show ?thesis by (intro tick[of now]) simp_all
next
  case (Request verb f now)
  show ?thesis
  proof (cases rule: index_cases[of strptime verb f now db])
    case (unchanged resp fl)
    with Request show ?thesis by (intro that(2)) simp
  next
    case (inserted e m dt)
    with Request show ?thesis by (intro that(3)[of e m dt]) simp
  qed
qed

lemma step_sent_kept:
  assumes "step smtp env strptime a db w = (db', lg, w')" "r \<in> set db" "sent r"
  shows "r \<in> set db'"
proof (cases rule: step_cases[of a smtp env strptime db w])
  case (tick now)
  with assms(1) have "check_and_send_reminders smtp env now db w = (db', lg, w')" by simp
  from tick_sent_kept[OF this assms(2,3)] show ?thesis .
next
  case unchanged
  with assms show ?thesis by simp
next
  case (inserted e m dt)
  with assms show ?thesis by auto
qed

lemma run_Cons:
  assumes "step smtp env strptime a db w = (db1, l1, w1)"
    and "run smtp env strptime acts db1 w1 = (db2, l2, w2)"
  shows "run smtp env strptime (a # acts) db w = (db2, l1 @ l2, w2)"
  using assms by simp

lemma run_sent_kept:
  "r \<in> set db \<Longrightarrow> sent r \<Longrightarrow> r \<in> set (fst (run smtp env strptime acts db w))"
proof (induction acts arbitrary: db w)
  case Nil
  then show ?case by simp
next
  case (Cons a acts)
  obtain db1 l1 w1 where s: "step smtp env strptime a db w = (db1, l1, w1)"
    by (cases "step smtp env strptime a db w") auto
  obtain db2 l2 w2 where r: "run smtp env strptime acts db1 w1 = (db2, l2, w2)"
    by (cases "run smtp env strptime acts db1 w1") auto
  from step_sent_kept[OF s Cons.prems] have "r \<in> set db1" .
  from Cons.IH[OF this Cons.prems(2), of w1] r have "r \<in> set db2" by simp
  with run_Cons[OF s r] show ?case by simp
qed

lemma step_settled:
  assumes "step smtp env strptime a db w = (db', lg, w')"
    and "i \<in> set (map id_col db)" and "\<forall>r\<in>set db. id_col r = i \<longrightarrow> sent r"
  shows "i \<in> set (map id_col db') \<and> (\<forall>r\<in>set db'. id_col r = i \<longrightarrow> sent r)
    \<and> i \<notin> set (processed lg)"
proof (cases rule: step_cases[of a smtp env strptime db w])
  case (tick now)
  with assms(1) have t: "check_and_send_reminders smtp env now db w = (db', lg, w')" by simp
  from tick_ids[OF t] assms(2) have 1: "i \<in> set (map id_col db')" by simp
  from tick_mono[OF t assms(3)] have 2: "\<forall>r\<in>set db'. id_col r = i \<longrightarrow> sent r" .
  from tick_processed[of smtp env now db w] t
  have "processed lg = map id_col (pending now db)" by simp
  moreover from assms(3) have "i \<notin> set (map id_col (pending now db))"
    by (auto simp: pending_member)
  ultimately have "i \<notin> set (processed lg)" by simp
  with 1 2 show ?thesis by simp
next
  case unchanged
  with assms show ?thesis by simp
next
  case (inserted e m dt)
  from assms(2) obtain q where "q \<in> set db" "id_col q = i" by auto
  with next_id_above[of q db] have "i \<noteq> next_id db" by auto
  with inserted assms show ?thesis by auto
qed

lemma run_settled:
  "i \<in> set (map id_col db) \<Longrightarrow> \<forall>r\<in>set db. id_col r = i \<longrightarrow> sent r \<Longrightarrow>
     i \<notin> set (processed (fst (snd (run smtp env strptime acts db w))))"
proof (induction acts arbitrary: db w)
  case Nil
  then show ?case by simp
next
  case (Cons a acts)
  obtain db1 l1 w1 where s: "step smtp env strptime a db w = (db1, l1, w1)"
    by (cases "step smtp env strptime a db w") auto
  obtain db2 l2 w2 where r: "run smtp env strptime acts db1 w1 = (db2, l2, w2)"
    by (cases "run smtp env strptime acts db1 w1") auto
  from step_settled[OF s Cons.prems] have 1: "i \<in> set (map id_col db1)"
    and 2: "\<forall>r\<in>set db1. id_col r = i \<longrightarrow> sent r" and 3: "i \<notin> set (processed l1)"
    by simp_all
  from Cons.IH[OF 1 2, of w1] r have "i \<notin> set (processed l2)" by simp
  with 3 run_Cons[OF s r] show ?case by (simp add: processed_append)
qed

lemma count_list_distinct: "distinct xs \<Longrightarrow> x \<in> set xs \<Longrightarrow> count_list xs x = 1"
  by (induction xs) auto

text \<open>
  Claim C4. Take any reminder R of the selection of a run and the reminders that come
  before it there. If the mail for R succeeds when its turn comes, that is, the mail
  helper returns true in the world the earlier reminders left behind, then the run marks
  R: its row is in the table after the run with the flag set, and so is every row of its
  key. The key is then in no later selection, whatever the clock, and no later run of the
  job takes it up, however the runs and the requests to the form handler follow each
  other: no second mail is sent for R. With a primary key the run itself takes R up
  exactly once.
\<close>

theorem no_retry_after_success:
  assumes "pending now db = before @ R # after"
    and "deliver smtp env before db w = (db1, lg1, w1)"
    and "fst (send_email smtp env (email R) (message R) w1)"
  shows "R\<lparr>sent := True\<rparr> \<in> set (fst (check_and_send_reminders smtp env now db w))
    \<and> Info_marked_sent (id_col R) \<in> set (fst (snd (check_and_send_reminders smtp env now db w)))
    \<and> list_all (\<lambda>r. id_col r = id_col R \<longrightarrow> sent r)
          (fst (check_and_send_reminders smtp env now db w))
    \<and> id_col R \<notin> set (map id_col (pending now2
          (fst (check_and_send_reminders smtp env now db w))))
    \<and> id_col R \<notin> set (processed (fst (snd (run smtp2 env2 strptime acts
          (fst (check_and_send_reminders smtp env now db w)) w2))))
    \<and> (primary_key db \<longrightarrow>
          count_list (processed (fst (snd (check_and_send_reminders smtp env now db w))))
            (id_col R) = 1)"
proof -
  obtain db' lg w' where d: "deliver smtp env (pending now db) db w = (db', lg, w')"
    by (cases "deliver smtp env (pending now db) db w") auto
  from assms(1) have ne: "pending now db \<noteq> []" by simp
  with d have t: "check_and_send_reminders smtp env now db w = (db', lg, w')"
    by (simp add: check_and_send_reminders_def)
  from deliver_success_logged[OF assms d] have m: "Info_marked_sent (id_col R) \<in> set lg" .
  from assms(1) have sel: "R \<in> set (pending now db)" by simp
  then have mem: "R \<in> set db" by (simp add: pending_member)
  from deliver_marked_row[OF d mem m] have 1: "R\<lparr>sent := True\<rparr> \<in> set db'" .
  from deliver_marked_sent[OF d m]
  have 2: "\<forall>r\<in>set db'. id_col r = id_col R \<longrightarrow> sent r" .
  then have 3: "id_col R \<notin> set (map id_col (pending now2 db'))"
    by (auto simp: pending_member)
  from mem deliver_ids[OF d] have "id_col R \<in> set (map id_col db')"
    by (metis image_eqI set_map)
  from run_settled[OF this 2]
  have 4: "id_col R \<notin> set (processed (fst (snd (run smtp2 env2 strptime acts db' w2))))" .
  have 5: "count_list (processed lg) (id_col R) = 1" if pk: "primary_key db"
  proof -
    from deliver_processed[OF d] have p: "processed lg = map id_col (pending now db)" .
    from sel have "id_col R \<in> set (map id_col (pending now db))" by simp
    with primary_key_pending[OF pk, of now] p show ?thesis
      by (simp add: count_list_distinct)
  qed
  from t m 1 2 3 4 5 show ?thesis by (simp add: list_all_iff)
qed

theorem no_retry_after_success_witness:
  "pending 250 [reminder_a, reminder_b] = [reminder_a] @ reminder_b # []
   \<and> deliver smtp_script env_configured [reminder_a] [reminder_a, reminder_b]
         [Inl (OtherException ''boom''), Inr ()]
       = ([reminder_a, reminder_b],
          [Info_processing 1 ''a@example.org'', Error_unexpected ''boom'', Warning_failed 1],
          [Inr ()])
   \<and> send_email smtp_script env_configured (email reminder_b) (message reminder_b) [Inr ()]
       = (True, [Info_email_sent ''b@example.org''], [])
   \<and> primary_key [reminder_a, reminder_b]
   \<and> reminder_b\<lparr>sent := True\<rparr> \<in> set (fst (check_and_send_reminders smtp_script
         env_configured 250 [reminder_a, reminder_b] [Inl (OtherException ''boom''), Inr ()]))
   \<and> Info_marked_sent (id_col reminder_b) \<in> set (fst (snd (check_and_send_reminders
         smtp_script env_configured 250 [reminder_a, reminder_b]
         [Inl (OtherException ''boom''), Inr ()])))
   \<and> id_col reminder_b \<notin> set (map id_col (pending 300 (fst (check_and_send_reminders
         smtp_script env_configured 250 [reminder_a, reminder_b]
         [Inl (OtherException ''boom''), Inr ()]))))
   \<and> id_col reminder_b \<notin> set (processed (fst (snd (run smtp_script env_configured
          strptime_two
          [Tick 300, Request POST (map_of [(''email'', ''c@example.org''),
             (''message'', ''tea''), (''remind_at'', ''2030-01-01T09:00'')]) 50, Tick 400]
          (fst (check_and_send_reminders smtp_script env_configured 250
             [reminder_a, reminder_b] [Inl (OtherException ''boom''), Inr ()]))
          [Inr (), Inr ()]))))
   \<and> count_list (processed (fst (snd (check_and_send_reminders smtp_script env_configured
          250 [reminder_a, reminder_b] [Inl (OtherException ''boom''), Inr ()]))))
        (id_col reminder_b) = 1"
proof -
  have h1: "pending 250 [reminder_a, reminder_b] = [reminder_a] @ reminder_b # []"
    by (simp add: pending_def reminder_a_def reminder_b_def)
  have h2: "deliver smtp_script env_configured [reminder_a] [reminder_a, reminder_b]
         [Inl (OtherException ''boom''), Inr ()]
       = ([reminder_a, reminder_b],
          [Info_processing 1 ''a@example.org'', Error_unexpected ''boom'', Warning_failed 1],
          [Inr ()])"
    by (simp add: send_email_def smtp_script_def env_configured_def reminder_a_def)
  have s: "send_email smtp_script env_configured (email reminder_b) (message reminder_b)
         [Inr ()] = (True, [Info_email_sent ''b@example.org''], [])"
    by (simp add: send_email_def smtp_script_def env_configured_def reminder_b_def)
  then have h3: "fst (send_email smtp_script env_configured (email reminder_b)
         (message reminder_b) [Inr ()])" by simp
  note t = no_retry_after_success[OF h1 h2 h3, of 300 smtp_script env_configured
      strptime_two "[Tick 300, Request POST (map_of [(''email'', ''c@example.org''),
             (''message'', ''tea''), (''remind_at'', ''2030-01-01T09:00'')]) 50, Tick 400]"
      "[Inr (), Inr ()]"]
  from t example_primary_key have c5: "count_list (processed (fst (snd
      (check_and_send_reminders smtp_script env_configured
          250 [reminder_a, reminder_b] [Inl (OtherException ''boom''), Inr ()]))))
        (id_col reminder_b) = 1"
    by (elim conjE impE)
  from h1 h2 s example_primary_key t c5 show ?thesis
    by (intro conjI) (elim conjE, assumption)+
qed

section \<open>The flag never goes back\<close>

lemma index_new_rows:
  assumes "r \<in> set (snd (snd (snd (index strptime method f now db))))" "r \<notin> set db"
  shows "sent r = False \<and> id_col r = next_id db"
proof (cases rule: index_cases[of strptime "method" f now db])
  case (unchanged resp fl)
  with assms show ?thesis by simp
next
  case (inserted e m dt)
  with assms show ?thesis by auto
qed

text \<open>
  Claim C5. A row that the form handler adds to the table has the flag unset. A row whose
  flag is set stays in the table as it is, flag set, through every sequence of runs of
  the job and requests to the form handler: nothing in the system takes the flag back. So
  the flag of a record goes from unset to set at most once.
\<close>

theorem sent_monotone:
  "(r \<in> set db \<and> sent r \<longrightarrow> r \<in> set (fst (run smtp env strptime acts db w)))
   \<and> (q \<in> set (snd (snd (snd (index strptime verb f now db)))) \<and> q \<notin> set db
        \<longrightarrow> sent q = False)"
proof (intro conjI impI)
  assume "r \<in> set db \<and> sent r"
  then show "r \<in> set (fst (run smtp env strptime acts db w))"
    using run_sent_kept[of r db smtp env strptime acts w] by simp
next
  assume "q \<in> set (snd (snd (snd (index strptime verb f now db)))) \<and> q \<notin> set db"
  then show "sent q = False"
    using index_new_rows[of q strptime verb f now db] by simp
qed

lemma example_run:
  "run smtp_script env_configured strptime_two
     [Tick 250,
      Request POST (map_of [(''email'', '' c@example.org ''), (''message'', ''tea''),
                            (''remind_at'', ''2030-01-01T09:01'')]) 50,
      Tick 300]
     [reminder_a, reminder_b] [Inl (OtherException ''boom''), Inr (), Inr (), Inr ()]
   = ([reminder_a\<lparr>sent := True\<rparr>, reminder_b\<lparr>sent := True\<rparr>,
       \<lparr>id_col = 3, email = ''c@example.org'', message = ''tea'', remind_at = 200,
          sent = True\<rparr>],
      [Info_processing 1 ''a@example.org'', Error_unexpected ''boom'', Warning_failed 1,
       Info_processing 2 ''b@example.org'', Info_email_sent ''b@example.org'',
       Info_marked_sent 2,
       Info_scheduled 3 ''c@example.org'' 200,
       Info_processing 1 ''a@example.org'', Info_email_sent ''a@example.org'',
       Info_marked_sent 1,
       Info_processing 3 ''c@example.org'', Info_email_sent ''c@example.org'',
       Info_marked_sent 3],
      [])"
  by (simp add: check_and_send_reminders_def pending_def send_email_def smtp_script_def
      env_configured_def mark_sent_def reminder_a_def reminder_b_def index_def validation_def
      strip_def isspace_def form_get_def strptime_two_def next_id_def Let_def)


lemma example_index:
  "index strptime_two POST (map_of [(''email'', '' c@example.org ''), (''message'', ''tea''),
                            (''remind_at'', ''2030-01-01T09:01'')]) 50 [reminder_a, reminder_b]
   = (Redirected, [Success ''c@example.org'' 200], [Info_scheduled 3 ''c@example.org'' 200],
      [reminder_a, reminder_b,
       \<lparr>id_col = 3, email = ''c@example.org'', message = ''tea'', remind_at = 200,
          sent = False\<rparr>])"
  by (simp add: reminder_a_def reminder_b_def index_def validation_def
      strip_def isspace_def form_get_def strptime_two_def next_id_def Let_def)


theorem sent_monotone_witness:
  "reminder_b\<lparr>sent := True\<rparr> \<in> set [reminder_a, reminder_b\<lparr>sent := True\<rparr>]
   \<and> sent (reminder_b\<lparr>sent := True\<rparr>)
   \<and> reminder_b\<lparr>sent := True\<rparr> \<in> set (fst (run smtp_script env_configured strptime_two
         [Tick 300, Request POST (map_of [(''email'', '' c@example.org ''),
            (''message'', ''tea''), (''remind_at'', ''2030-01-01T09:01'')]) 50, Tick 400]
         [reminder_a, reminder_b\<lparr>sent := True\<rparr>] [Inr (), Inr ()]))
   \<and> \<lparr>id_col = 3, email = ''c@example.org'', message = ''tea'', remind_at = 200,
        sent = False\<rparr>
       \<in> set (snd (snd (snd (index strptime_two POST (map_of [(''email'', '' c@example.org ''),
            (''message'', ''tea''), (''remind_at'', ''2030-01-01T09:01'')]) 50
            [reminder_a, reminder_b]))))
   \<and> \<lparr>id_col = 3, email = ''c@example.org'', message = ''tea'', remind_at = 200,
        sent = False\<rparr> \<notin> set [reminder_a, reminder_b]
   \<and> sent \<lparr>id_col = 3, email = ''c@example.org'', message = ''tea'', remind_at = 200,
        sent = False\<rparr> = False"
proof -
  have h1: "reminder_b\<lparr>sent := True\<rparr> \<in> set [reminder_a, reminder_b\<lparr>sent := True\<rparr>]
      \<and> sent (reminder_b\<lparr>sent := True\<rparr>)" by simp
  have h2: "\<lparr>id_col = 3, email = ''c@example.org'', message = ''tea'', remind_at = 200,
        sent = False\<rparr>
       \<in> set (snd (snd (snd (index strptime_two POST (map_of [(''email'', '' c@example.org ''),
            (''message'', ''tea''), (''remind_at'', ''2030-01-01T09:01'')]) 50
            [reminder_a, reminder_b]))))
     \<and> \<lparr>id_col = 3, email = ''c@example.org'', message = ''tea'', remind_at = 200,
        sent = False\<rparr> \<notin> set [reminder_a, reminder_b]"
    by (simp only: example_index) (simp add: reminder_a_def reminder_b_def)
  note t = sent_monotone[where r = "reminder_b\<lparr>sent := True\<rparr>"
      and db = "[reminder_a, reminder_b\<lparr>sent := True\<rparr>]"
      and smtp = smtp_script and env = env_configured and strptime = strptime_two
      and acts = "[Tick 300, Request POST (map_of [(''email'', '' c@example.org ''),
            (''message'', ''tea''), (''remind_at'', ''2030-01-01T09:01'')]) 50, Tick 400]"
      and w = "[Inr (), Inr ()]"]
  note u = sent_monotone[where q = "\<lparr>id_col = 3, email = ''c@example.org'', message = ''tea'',
        remind_at = 200, sent = False\<rparr>"
      and db = "[reminder_a, reminder_b]" and strptime = strptime_two and verb = POST
      and f = "map_of [(''email'', '' c@example.org ''),
            (''message'', ''tea''), (''remind_at'', ''2030-01-01T09:01'')]" and now = 50]
  from t[THEN conjunct1, THEN mp, OF h1] have c1: "reminder_b\<lparr>sent := True\<rparr> \<in> set (fst (run smtp_script env_configured
         strptime_two
         [Tick 300, Request POST (map_of [(''email'', '' c@example.org ''),
            (''message'', ''tea''), (''remind_at'', ''2030-01-01T09:01'')]) 50, Tick 400]
         [reminder_a, reminder_b\<lparr>sent := True\<rparr>] [Inr (), Inr ()]))"
    .
  from u[THEN conjunct2, THEN mp, OF h2] have c2: "sent \<lparr>id_col = 3, email = ''c@example.org'', message = ''tea'',
        remind_at = 200, sent = False\<rparr> = False"
    .
  from h1 h2 c1 c2 show ?thesis by (intro conjI) (elim conjE, assumption)+
qed

section \<open>A failed mail does not stop the loop\<close>

text \<open>
  Claim C6. Take any reminder B of the selection of a run and the reminders that come
  before it there. However the mails for those ended, by a missing configuration, by a
  failed authentication, by an SMTP error or by any other exception, the loop reaches B:
  if the mail for B succeeds in the world they left behind, B is marked as sent and its
  row has the flag set after the run. Every reminder of the selection is taken up, in
  order, whatever happened to the others.
\<close>

theorem tick_isolation:
  assumes "pending now db = before @ B # after"
    and "deliver smtp env before db w = (db1, lg1, w1)"
    and "fst (send_email smtp env (email B) (message B) w1)"
  shows "B\<lparr>sent := True\<rparr> \<in> set (fst (check_and_send_reminders smtp env now db w))
    \<and> Info_marked_sent (id_col B) \<in> set (fst (snd (check_and_send_reminders smtp env now db w)))
    \<and> processed (fst (snd (check_and_send_reminders smtp env now db w)))
        = map id_col before @ id_col B # map id_col after"
proof -
  obtain db' lg w' where d: "deliver smtp env (pending now db) db w = (db', lg, w')"
    by (cases "deliver smtp env (pending now db) db w") auto
  from assms(1) have ne: "pending now db \<noteq> []" by simp
  with d have t: "check_and_send_reminders smtp env now db w = (db', lg, w')"
    by (simp add: check_and_send_reminders_def)
  from deliver_success_logged[OF assms d] have m: "Info_marked_sent (id_col B) \<in> set lg" .
  from assms(1) have "B \<in> set (pending now db)" by simp
  then have "B \<in> set db" by (simp add: pending_member)
  from deliver_marked_row[OF d this m] have row: "B\<lparr>sent := True\<rparr> \<in> set db'" .
  from tick_processed[of smtp env now db w] assms(1)
  have "processed (fst (snd (check_and_send_reminders smtp env now db w)))
        = map id_col before @ id_col B # map id_col after" by simp
  with t m row show ?thesis by simp
qed

theorem tick_isolation_witness:
  "pending 250 [reminder_a, reminder_b] = [reminder_a] @ reminder_b # []
   \<and> deliver smtp_script env_configured [reminder_a] [reminder_a, reminder_b]
         [Inl (OtherException ''boom''), Inr ()]
       = ([reminder_a, reminder_b],
          [Info_processing 1 ''a@example.org'', Error_unexpected ''boom'', Warning_failed 1],
          [Inr ()])
   \<and> fst (send_email smtp_script env_configured (email reminder_b) (message reminder_b) [Inr ()])
   \<and> reminder_b\<lparr>sent := True\<rparr> \<in> set (fst (check_and_send_reminders smtp_script
         env_configured 250 [reminder_a, reminder_b] [Inl (OtherException ''boom''), Inr ()]))
   \<and> Info_marked_sent (id_col reminder_b) \<in> set (fst (snd (check_and_send_reminders
         smtp_script env_configured 250 [reminder_a, reminder_b]
         [Inl (OtherException ''boom''), Inr ()])))
   \<and> processed (fst (snd (check_and_send_reminders smtp_script env_configured 250
         [reminder_a, reminder_b] [Inl (OtherException ''boom''), Inr ()])))
       = map id_col [reminder_a] @ id_col reminder_b # map id_col ([] :: Reminder list)"
proof -
  have h1: "pending 250 [reminder_a, reminder_b] = [reminder_a] @ reminder_b # []"
    by (simp add: pending_def reminder_a_def reminder_b_def)
  have h2: "deliver smtp_script env_configured [reminder_a] [reminder_a, reminder_b]
         [Inl (OtherException ''boom''), Inr ()]
       = ([reminder_a, reminder_b],
          [Info_processing 1 ''a@example.org'', Error_unexpected ''boom'', Warning_failed 1],
          [Inr ()])"
    by (simp add: send_email_def smtp_script_def env_configured_def reminder_a_def)
  have h3: "fst (send_email smtp_script env_configured (email reminder_b) (message reminder_b)
         [Inr ()])"
    by (simp add: send_email_def smtp_script_def env_configured_def)
  from tick_isolation[OF h1 h2 h3] h1 h2 h3 show ?thesis by (intro conjI) (elim conjE, assumption)+
qed

section \<open>What the form handler accepts\<close>

text \<open>
  Claim C7, as stated: creation fails exactly when the recipient is empty, the message is
  empty, or the time is not strictly after the clock. It does not hold of the handler: a
  recipient that is one space is not empty, the message is not empty and the time, 100,
  is after the clock, 50, and the handler still rejects the request with the text for a
  missing address and adds no row.
\<close>

theorem create_validation_counterexample:
  "form_get (map_of [(''email'', '' ''), (''message'', ''tea''),
                     (''remind_at'', ''2030-01-01T09:00'')]) ''email'' \<noteq> []
   \<and> form_get (map_of [(''email'', '' ''), (''message'', ''tea''),
                     (''remind_at'', ''2030-01-01T09:00'')]) ''message'' \<noteq> []
   \<and> strptime_two (form_get (map_of [(''email'', '' ''), (''message'', ''tea''),
                     (''remind_at'', ''2030-01-01T09:00'')]) ''remind_at'') = Some 100
   \<and> (50 :: int) < 100
   \<and> index strptime_two POST (map_of [(''email'', '' ''), (''message'', ''tea''),
                     (''remind_at'', ''2030-01-01T09:00'')]) 50 [reminder_a]
       = (Redirected, [Danger ''Email address is required.''], [], [reminder_a])"
  by (simp add: index_def validation_def strip_def isspace_def form_get_def strptime_two_def
      Let_def)

text \<open>
  Claim C7, amended. The handler works on the three fields with the white space at both
  ends removed. A submitted form is rejected, with at least one error text flashed and
  the table as it was, if and only if the stripped recipient is empty, the stripped
  message is empty, the stripped text of the time is empty or cannot be read in the
  format, or the time read is not strictly after the clock of the fixed zone. Otherwise
  one row is added at the end of the table: a fresh key, the stripped recipient and
  message, the time read, and the flag unset.
\<close>

theorem create_validation:
  "(if strip (form_get f ''email'') = [] \<or> strip (form_get f ''message'') = []
       \<or> strip (form_get f ''remind_at'') = []
       \<or> (case strptime (strip (form_get f ''remind_at'')) of
             None \<Rightarrow> True | Some dt \<Rightarrow> dt \<le> now)
    then \<exists>errs. errs \<noteq> []
           \<and> index strptime POST f now db = (Redirected, map Danger errs, [], db)
    else \<exists>dt. strptime (strip (form_get f ''remind_at'')) = Some dt \<and> now < dt
           \<and> index strptime POST f now db =
               (Redirected, [Success (strip (form_get f ''email'')) dt],
                [Info_scheduled (next_id db) (strip (form_get f ''email'')) dt],
                db @ [\<lparr>id_col = next_id db, email = strip (form_get f ''email''),
                        message = strip (form_get f ''message''), remind_at = dt,
                        sent = False\<rparr>])
           \<and> next_id db \<notin> set (map id_col db))"
proof (cases "strptime (strip (form_get f ''remind_at''))")
  case None
  then have "\<not> (strip (form_get f ''email'') \<noteq> [] \<and> strip (form_get f ''message'') \<noteq> []
    \<and> strip (form_get f ''remind_at'') \<noteq> []
    \<and> (\<exists>dt. strptime (strip (form_get f ''remind_at'')) = Some dt \<and> now < dt))" by simp
  from this index_reject[of f strptime now db] None show ?thesis by simp
next
  case (Some dt)
  have fresh: "next_id db \<notin> set (map id_col db)"
    using next_id_above[of _ db] by fastforce
  show ?thesis
  proof (cases "strip (form_get f ''email'') = [] \<or> strip (form_get f ''message'') = []
       \<or> strip (form_get f ''remind_at'') = [] \<or> dt \<le> now")
    case True
    with Some
    have "\<not> (strip (form_get f ''email'') \<noteq> [] \<and> strip (form_get f ''message'') \<noteq> []
      \<and> strip (form_get f ''remind_at'') \<noteq> []
      \<and> (\<exists>dt. strptime (strip (form_get f ''remind_at'')) = Some dt \<and> now < dt))" by auto
    from this index_reject[of f strptime now db] True Some show ?thesis by simp
  next
    case False
    then have a: "strip (form_get f ''email'') \<noteq> []" "strip (form_get f ''message'') \<noteq> []"
      "strip (form_get f ''remind_at'') \<noteq> []" "now < dt" by simp_all
    from a Some index_accept[of f strptime dt now db] False fresh show ?thesis by simp
  qed
qed


theorem create_validation_witness:
  "index strptime_two POST (map_of [(''email'', '' c@example.org ''), (''message'', ''tea''),
                            (''remind_at'', ''2030-01-01T09:01'')]) 50 [reminder_a, reminder_b]
     = (Redirected, [Success ''c@example.org'' 200],
        [Info_scheduled (next_id [reminder_a, reminder_b]) ''c@example.org'' 200],
        [reminder_a, reminder_b,
         \<lparr>id_col = next_id [reminder_a, reminder_b], email = ''c@example.org'',
            message = ''tea'', remind_at = 200, sent = False\<rparr>])
   \<and> next_id [reminder_a, reminder_b] \<notin> set (map id_col [reminder_a, reminder_b])
   \<and> (\<exists>errs. errs \<noteq> [] \<and>
         index strptime_two POST (map_of [(''email'', ''c@example.org''), (''message'', ''  ''),
                            (''remind_at'', ''2030-01-01T09:01'')]) 50 [reminder_a, reminder_b]
           = (Redirected, map Danger errs, [], [reminder_a, reminder_b]))"
proof -
  have s1: "strip '' c@example.org '' = ''c@example.org''" "strip ''tea'' = ''tea''"
    "strip ''2030-01-01T09:01'' = ''2030-01-01T09:01''" "strip ''  '' = []"
    "strip ''c@example.org'' = ''c@example.org''"
    by (simp_all add: strip_def isspace_def)
  from create_validation[where f = "map_of [(''email'', '' c@example.org ''),
      (''message'', ''tea''), (''remind_at'', ''2030-01-01T09:01'')]"
      and strptime = strptime_two and now = 50 and db = "[reminder_a, reminder_b]"]
  have a: "index strptime_two POST (map_of [(''email'', '' c@example.org ''),
        (''message'', ''tea''), (''remind_at'', ''2030-01-01T09:01'')]) 50
        [reminder_a, reminder_b]
     = (Redirected, [Success ''c@example.org'' 200],
        [Info_scheduled (next_id [reminder_a, reminder_b]) ''c@example.org'' 200],
        [reminder_a, reminder_b,
         \<lparr>id_col = next_id [reminder_a, reminder_b], email = ''c@example.org'',
            message = ''tea'', remind_at = 200, sent = False\<rparr>])
   \<and> next_id [reminder_a, reminder_b] \<notin> set (map id_col [reminder_a, reminder_b])"
    by (simp add: form_get_def s1 strptime_two_def)
  from create_validation[where f = "map_of [(''email'', ''c@example.org''),
      (''message'', ''  ''), (''remind_at'', ''2030-01-01T09:01'')]"
      and strptime = strptime_two and now = 50 and db = "[reminder_a, reminder_b]"]
  have b: "\<exists>errs. errs \<noteq> [] \<and>
         index strptime_two POST (map_of [(''email'', ''c@example.org''), (''message'', ''  ''),
                            (''remind_at'', ''2030-01-01T09:01'')]) 50 [reminder_a, reminder_b]
           = (Redirected, map Danger errs, [], [reminder_a, reminder_b])"
    by (simp add: form_get_def s1)
  from a b show ?thesis by (intro conjI) (elim conjE, assumption)+
qed

section \<open>What the mail helper returns\<close>

lemma send_email_unconfigured:
  "falsy (env ''EMAIL_USER'') \<or> falsy (env ''EMAIL_PASS'') \<Longrightarrow>
     send_email smtp env t m w = (False, [Error_not_configured], w)"
  by (cases "env ''EMAIL_USER''"; cases "env ''EMAIL_PASS''") (auto simp: send_email_def)

lemma send_email_configured:
  "env ''EMAIL_USER'' = Some u \<Longrightarrow> env ''EMAIL_PASS'' = Some p \<Longrightarrow> u \<noteq> [] \<Longrightarrow> p \<noteq> [] \<Longrightarrow>
     send_email smtp env t m w =
       (case smtp u p t m w of
          (Inr _, w') \<Rightarrow> (True, [Info_email_sent t], w')
        | (Inl SMTPAuthenticationError, w') \<Rightarrow> (False, [Error_auth_failed], w')
        | (Inl (SMTPException e), w') \<Rightarrow> (False, [Error_smtp e], w')
        | (Inl (OtherException e), w') \<Rightarrow> (False, [Error_unexpected e], w'))"
  by (simp add: send_email_def)

lemma deliver_unconfigured:
  assumes "falsy (env ''EMAIL_USER'') \<or> falsy (env ''EMAIL_PASS'')"
  shows "fst (deliver smtp env ps db w) = db \<and> snd (snd (deliver smtp env ps db w)) = w"
proof (induction ps)
  case Nil
  show ?case by simp
next
  case (Cons p ps)
  obtain db' lg w' where d: "deliver smtp env ps db w = (db', lg, w')"
    by (cases "deliver smtp env ps db w") auto
  with Cons have "db' = db" "w' = w" by simp_all
  with d send_email_unconfigured[OF assms, of smtp "email p" "message p" w] show ?case by simp
qed

text \<open>
  Claim C8, as stated: the send returns a classified result that tells a configuration
  error, not to be retried, from a transient one, and the job decides on a retry from that
  class. It does not hold of the code. With the password missing the helper returns the
  same value, false, that it returns after an SMTP error with everything configured; and
  the job, run twice with the password missing, takes the same reminder up in both runs
  and leaves it unsent.
\<close>

theorem failure_classification_counterexample:
  "send_email smtp_script env_unconfigured ''a@example.org'' ''water the plants'' [Inr ()]
     = (False, [Error_not_configured], [Inr ()])
   \<and> send_email smtp_script env_configured ''a@example.org'' ''water the plants''
        [Inl (SMTPException ''421 try again later'')]
     = (False, [Error_smtp ''421 try again later''], [])
   \<and> run smtp_script env_unconfigured strptime_two [Tick 250, Tick 251] [reminder_a] [Inr ()]
     = ([reminder_a],
        [Info_processing 1 ''a@example.org'', Error_not_configured, Warning_failed 1,
         Info_processing 1 ''a@example.org'', Error_not_configured, Warning_failed 1],
        [Inr ()])"
  by (simp add: send_email_def smtp_script_def env_configured_def env_unconfigured_def
      check_and_send_reminders_def pending_def reminder_a_def)

text \<open>
  Claim C8, amended. The mail helper returns a boolean and nothing else: true, with the
  record of the mail sent, when the credentials are set and the exchange with the server
  completes; false on every failure. The kind of the failure shows only in the one record
  the helper logs: the credentials not configured, the authentication failed, another
  SMTP error with its text, or any other exception with its text. The job decides on the
  boolean alone. After one reminder the table is the updated one when the boolean is true
  and the unchanged one when it is false. In a run, a reminder whose mail succeeds at its
  turn is marked and leaves the selection; a reminder whose mail fails at its turn, for
  whichever of the reasons, is logged as failed, stays in the table as it was and is in
  the selection of the next run. With the configuration missing a run changes neither
  the table nor the world and still takes up every due reminder.
\<close>

theorem failure_only_logged:
  "(falsy (env ''EMAIL_USER'') \<or> falsy (env ''EMAIL_PASS'') \<longrightarrow>
      send_email smtp env t m w = (False, [Error_not_configured], w))
   \<and> (env ''EMAIL_USER'' = Some u \<and> env ''EMAIL_PASS'' = Some p \<and> u \<noteq> [] \<and> p \<noteq> []
        \<and> smtp u p t m w = (Inr (), w') \<longrightarrow>
      send_email smtp env t m w = (True, [Info_email_sent t], w'))
   \<and> (env ''EMAIL_USER'' = Some u \<and> env ''EMAIL_PASS'' = Some p \<and> u \<noteq> [] \<and> p \<noteq> []
        \<and> smtp u p t m w = (Inl SMTPAuthenticationError, w') \<longrightarrow>
      send_email smtp env t m w = (False, [Error_auth_failed], w'))
   \<and> (env ''EMAIL_USER'' = Some u \<and> env ''EMAIL_PASS'' = Some p \<and> u \<noteq> [] \<and> p \<noteq> []
        \<and> smtp u p t m w = (Inl (SMTPException e), w') \<longrightarrow>
      send_email smtp env t m w = (False, [Error_smtp e], w'))
   \<and> (env ''EMAIL_USER'' = Some u \<and> env ''EMAIL_PASS'' = Some p \<and> u \<noteq> [] \<and> p \<noteq> []
        \<and> smtp u p t m w = (Inl (OtherException e), w') \<longrightarrow>
      send_email smtp env t m w = (False, [Error_unexpected e], w'))
   \<and> fst (deliver smtp env [r] db w)
       = (if fst (send_email smtp env (email r) (message r) w)
          then mark_sent (id_col r) db else db)
   \<and> (pending now db = before @ R # after
        \<and> deliver smtp env before db w = (db1, lg1, w1)
        \<and> fst (send_email smtp env (email R) (message R) w1) \<longrightarrow>
      R\<lparr>sent := True\<rparr> \<in> set (fst (check_and_send_reminders smtp env now db w))
      \<and> id_col R \<notin> set (map id_col (pending later
            (fst (check_and_send_reminders smtp env now db w)))))
   \<and> (primary_key db \<and> pending now db = before @ R # after
        \<and> deliver smtp env before db w = (db1, lg1, w1)
        \<and> fst (send_email smtp env (email R) (message R) w1) = False
        \<and> now \<le> later \<longrightarrow>
      Warning_failed (id_col R) \<in> set (fst (snd (check_and_send_reminders smtp env now db w)))
      \<and> R \<in> set (fst (check_and_send_reminders smtp env now db w))
      \<and> R \<in> set (pending later (fst (check_and_send_reminders smtp env now db w))))
   \<and> (falsy (env ''EMAIL_USER'') \<or> falsy (env ''EMAIL_PASS'') \<longrightarrow>
        fst (check_and_send_reminders smtp env now db w) = db
        \<and> snd (snd (check_and_send_reminders smtp env now db w)) = w
        \<and> processed (fst (snd (check_and_send_reminders smtp env now db w)))
            = map id_col (pending now db))"
proof (intro conjI impI)
  assume "falsy (env ''EMAIL_USER'') \<or> falsy (env ''EMAIL_PASS'')"
  then show "send_email smtp env t m w = (False, [Error_not_configured], w)"
    by (rule send_email_unconfigured)
next
  assume "env ''EMAIL_USER'' = Some u \<and> env ''EMAIL_PASS'' = Some p \<and> u \<noteq> [] \<and> p \<noteq> []
        \<and> smtp u p t m w = (Inr (), w')"
  then show "send_email smtp env t m w = (True, [Info_email_sent t], w')"
    using send_email_configured[of env u p smtp t m w] by simp
next
  assume "env ''EMAIL_USER'' = Some u \<and> env ''EMAIL_PASS'' = Some p \<and> u \<noteq> [] \<and> p \<noteq> []
        \<and> smtp u p t m w = (Inl SMTPAuthenticationError, w')"
  then show "send_email smtp env t m w = (False, [Error_auth_failed], w')"
    using send_email_configured[of env u p smtp t m w] by simp
next
  assume "env ''EMAIL_USER'' = Some u \<and> env ''EMAIL_PASS'' = Some p \<and> u \<noteq> [] \<and> p \<noteq> []
        \<and> smtp u p t m w = (Inl (SMTPException e), w')"
  then show "send_email smtp env t m w = (False, [Error_smtp e], w')"
    using send_email_configured[of env u p smtp t m w] by simp
next
  assume "env ''EMAIL_USER'' = Some u \<and> env ''EMAIL_PASS'' = Some p \<and> u \<noteq> [] \<and> p \<noteq> []
        \<and> smtp u p t m w = (Inl (OtherException e), w')"
  then show "send_email smtp env t m w = (False, [Error_unexpected e], w')"
    using send_email_configured[of env u p smtp t m w] by simp
next
  show "fst (deliver smtp env [r] db w)
       = (if fst (send_email smtp env (email r) (message r) w)
          then mark_sent (id_col r) db else db)"
    by (cases "send_email smtp env (email r) (message r) w") simp
next
  assume a: "pending now db = before @ R # after
        \<and> deliver smtp env before db w = (db1, lg1, w1)
        \<and> fst (send_email smtp env (email R) (message R) w1)"
  obtain db' lg wd where d: "deliver smtp env (pending now db) db w = (db', lg, wd)"
    by (cases "deliver smtp env (pending now db) db w") auto
  from a have "pending now db \<noteq> []" by simp
  with d have t: "check_and_send_reminders smtp env now db w = (db', lg, wd)"
    by (simp add: check_and_send_reminders_def)
  from a have a1: "pending now db = before @ R # after"
    and a2: "deliver smtp env before db w = (db1, lg1, w1)"
    and a3: "fst (send_email smtp env (email R) (message R) w1)" by simp_all
  from deliver_success_logged[OF a1 a2 a3 d]
  have mk: "Info_marked_sent (id_col R) \<in> set lg" .
  from a1 have "R \<in> set (pending now db)" by simp
  then have mem: "R \<in> set db" by (simp add: pending_member)
  from deliver_marked_row[OF d mem mk] t
  show "R\<lparr>sent := True\<rparr> \<in> set (fst (check_and_send_reminders smtp env now db w))"
    by simp
  from deliver_marked_sent[OF d mk] t
  show "id_col R \<notin> set (map id_col (pending later
            (fst (check_and_send_reminders smtp env now db w))))"
    by (auto simp: pending_member)
next
  assume a: "primary_key db \<and> pending now db = before @ R # after
        \<and> deliver smtp env before db w = (db1, lg1, w1)
        \<and> fst (send_email smtp env (email R) (message R) w1) = False
        \<and> now \<le> later"
  obtain db' lg wd where d: "deliver smtp env (pending now db) db w = (db', lg, wd)"
    by (cases "deliver smtp env (pending now db) db w") auto
  from a have "pending now db \<noteq> []" by simp
  with d have t: "check_and_send_reminders smtp env now db w = (db', lg, wd)"
    by (simp add: check_and_send_reminders_def)
  from a have pk: "primary_key db" and a1: "pending now db = before @ R # after"
    and a2: "deliver smtp env before db w = (db1, lg1, w1)"
    and a3: "\<not> fst (send_email smtp env (email R) (message R) w1)"
    and a4: "now \<le> later" by simp_all
  from deliver_failure_logged[OF a1 a2 a3 d]
  have failed: "Warning_failed (id_col R) \<in> set lg" .
  from a1 have "R \<in> set (pending now db)" by simp
  then have mem: "R \<in> set db" and due: "\<not> sent R" "remind_at R \<le> now"
    by (simp_all add: pending_member)
  from deliver_failed_not_marked[OF d primary_key_pending[OF pk] failed]
  have nm: "Info_marked_sent (id_col R) \<notin> set lg" .
  from deliver_unmarked_kept[OF d mem nm] have kept: "R \<in> set db'" .
  from failed t
  show "Warning_failed (id_col R) \<in> set (fst (snd (check_and_send_reminders smtp env now db w)))"
    by simp
  from kept t show "R \<in> set (fst (check_and_send_reminders smtp env now db w))" by simp
  from kept due a4 t
  show "R \<in> set (pending later (fst (check_and_send_reminders smtp env now db w)))"
    by (simp add: pending_member)
next
  assume u: "falsy (env ''EMAIL_USER'') \<or> falsy (env ''EMAIL_PASS'')"
  from deliver_unconfigured[OF u, of smtp "pending now db" db w]
  show "fst (check_and_send_reminders smtp env now db w) = db"
    by (simp add: check_and_send_reminders_def)
  from deliver_unconfigured[OF u, of smtp "pending now db" db w]
  show "snd (snd (check_and_send_reminders smtp env now db w)) = w"
    by (simp add: check_and_send_reminders_def)
  show "processed (fst (snd (check_and_send_reminders smtp env now db w)))
            = map id_col (pending now db)"
    by (rule tick_processed)
qed

theorem failure_only_logged_witness:
  "(falsy (env_unconfigured ''EMAIL_USER'') \<or> falsy (env_unconfigured ''EMAIL_PASS''))
   \<and> send_email smtp_script env_unconfigured ''a@example.org'' ''tea'' [Inr ()]
       = (False, [Error_not_configured], [Inr ()])
   \<and> env_configured ''EMAIL_USER'' = Some ''me@example.org''
   \<and> env_configured ''EMAIL_PASS'' = Some ''secret''
   \<and> ''me@example.org'' \<noteq> [] \<and> ''secret'' \<noteq> []
   \<and> smtp_script ''me@example.org'' ''secret'' ''a@example.org'' ''tea'' [Inr ()]
       = (Inr (), [])
   \<and> send_email smtp_script env_configured ''a@example.org'' ''tea'' [Inr ()]
       = (True, [Info_email_sent ''a@example.org''], [])
   \<and> smtp_script ''me@example.org'' ''secret'' ''a@example.org'' ''tea''
         [Inl SMTPAuthenticationError] = (Inl SMTPAuthenticationError, [])
   \<and> send_email smtp_script env_configured ''a@example.org'' ''tea''
         [Inl SMTPAuthenticationError] = (False, [Error_auth_failed], [])
   \<and> smtp_script ''me@example.org'' ''secret'' ''a@example.org'' ''tea''
         [Inl (SMTPException ''421 try again later'')]
       = (Inl (SMTPException ''421 try again later''), [])
   \<and> send_email smtp_script env_configured ''a@example.org'' ''tea''
         [Inl (SMTPException ''421 try again later'')]
       = (False, [Error_smtp ''421 try again later''], [])
   \<and> smtp_script ''me@example.org'' ''secret'' ''a@example.org'' ''tea''
         [Inl (OtherException ''boom'')] = (Inl (OtherException ''boom''), [])
   \<and> send_email smtp_script env_configured ''a@example.org'' ''tea''
         [Inl (OtherException ''boom'')] = (False, [Error_unexpected ''boom''], [])
   \<and> primary_key [reminder_a, reminder_b]
   \<and> pending 250 [reminder_a, reminder_b] = [] @ reminder_a # [reminder_b]
   \<and> deliver smtp_script env_configured [] [reminder_a, reminder_b]
         [Inl (SMTPException ''421 try again later''), Inr ()]
       = ([reminder_a, reminder_b], [], [Inl (SMTPException ''421 try again later''), Inr ()])
   \<and> fst (send_email smtp_script env_configured (email reminder_a) (message reminder_a)
         [Inl (SMTPException ''421 try again later''), Inr ()]) = False
   \<and> (250 :: int) \<le> 300
   \<and> Warning_failed (id_col reminder_a) \<in> set (fst (snd (check_and_send_reminders
         smtp_script env_configured 250 [reminder_a, reminder_b]
         [Inl (SMTPException ''421 try again later''), Inr ()])))
   \<and> reminder_a \<in> set (fst (check_and_send_reminders smtp_script env_configured 250
         [reminder_a, reminder_b] [Inl (SMTPException ''421 try again later''), Inr ()]))
   \<and> reminder_a \<in> set (pending 300 (fst (check_and_send_reminders smtp_script
         env_configured 250 [reminder_a, reminder_b]
         [Inl (SMTPException ''421 try again later''), Inr ()])))
   \<and> pending 250 [reminder_a, reminder_b] = [reminder_a] @ reminder_b # []
   \<and> deliver smtp_script env_configured [reminder_a] [reminder_a, reminder_b]
         [Inl (SMTPException ''421 try again later''), Inr ()]
       = ([reminder_a, reminder_b],
          [Info_processing 1 ''a@example.org'', Error_smtp ''421 try again later'',
           Warning_failed 1],
          [Inr ()])
   \<and> fst (send_email smtp_script env_configured (email reminder_b) (message reminder_b)
         [Inr ()])
   \<and> reminder_b\<lparr>sent := True\<rparr> \<in> set (fst (check_and_send_reminders smtp_script
         env_configured 250 [reminder_a, reminder_b]
         [Inl (SMTPException ''421 try again later''), Inr ()]))
   \<and> id_col reminder_b \<notin> set (map id_col (pending 300 (fst (check_and_send_reminders
         smtp_script env_configured 250 [reminder_a, reminder_b]
         [Inl (SMTPException ''421 try again later''), Inr ()]))))
   \<and> fst (check_and_send_reminders smtp_script env_unconfigured 250 [reminder_a, reminder_b]
          [Inr ()]) = [reminder_a, reminder_b]
   \<and> snd (snd (check_and_send_reminders smtp_script env_unconfigured 250
          [reminder_a, reminder_b] [Inr ()])) = [Inr ()]
   \<and> processed (fst (snd (check_and_send_reminders smtp_script env_unconfigured 250
          [reminder_a, reminder_b] [Inr ()]))) = map id_col (pending 250 [reminder_a, reminder_b])"
proof -
  have h: "falsy (env_unconfigured ''EMAIL_USER'') \<or> falsy (env_unconfigured ''EMAIL_PASS'')"
    by (simp add: env_unconfigured_def)
  have cfg: "env_configured ''EMAIL_USER'' = Some ''me@example.org''"
    "env_configured ''EMAIL_PASS'' = Some ''secret''"
    "''me@example.org'' \<noteq> []" "''secret'' \<noteq> []"
    by (simp_all add: env_configured_def)
  have x1: "smtp_script ''me@example.org'' ''secret'' ''a@example.org'' ''tea'' [Inr ()]
       = (Inr (), [])"
    and x2: "smtp_script ''me@example.org'' ''secret'' ''a@example.org'' ''tea''
         [Inl SMTPAuthenticationError] = (Inl SMTPAuthenticationError, [])"
    and x3: "smtp_script ''me@example.org'' ''secret'' ''a@example.org'' ''tea''
         [Inl (SMTPException ''421 try again later'')]
       = (Inl (SMTPException ''421 try again later''), [])"
    and x4: "smtp_script ''me@example.org'' ''secret'' ''a@example.org'' ''tea''
         [Inl (OtherException ''boom'')] = (Inl (OtherException ''boom''), [])"
    by (simp_all add: smtp_script_def)
  have sel_a: "pending 250 [reminder_a, reminder_b] = [] @ reminder_a # [reminder_b]"
    and sel_b: "pending 250 [reminder_a, reminder_b] = [reminder_a] @ reminder_b # []"
    by (simp_all add: pending_def reminder_a_def reminder_b_def)
  have pre_a: "deliver smtp_script env_configured [] [reminder_a, reminder_b]
         [Inl (SMTPException ''421 try again later''), Inr ()]
       = ([reminder_a, reminder_b], [], [Inl (SMTPException ''421 try again later''), Inr ()])"
    by simp
  have pre_b: "deliver smtp_script env_configured [reminder_a] [reminder_a, reminder_b]
         [Inl (SMTPException ''421 try again later''), Inr ()]
       = ([reminder_a, reminder_b],
          [Info_processing 1 ''a@example.org'', Error_smtp ''421 try again later'',
           Warning_failed 1],
          [Inr ()])"
    by (simp add: send_email_def smtp_script_def env_configured_def reminder_a_def)
  have fail_a: "fst (send_email smtp_script env_configured (email reminder_a)
         (message reminder_a) [Inl (SMTPException ''421 try again later''), Inr ()]) = False"
    by (simp add: send_email_def smtp_script_def env_configured_def)
  have ok_b: "fst (send_email smtp_script env_configured (email reminder_b)
         (message reminder_b) [Inr ()])"
    by (simp add: send_email_def smtp_script_def env_configured_def)
  have le: "(250 :: int) \<le> 300" by simp
  note c1 = failure_only_logged[where env = env_unconfigured and smtp = smtp_script
      and t = "''a@example.org''" and m = "''tea''" and w = "[Inr ()]",
      THEN conjunct1, THEN mp, OF h]
  note c2 = failure_only_logged[where env = env_configured and smtp = smtp_script
      and t = "''a@example.org''" and m = "''tea''" and w = "[Inr ()]"
      and u = "''me@example.org''" and p = "''secret''" and w' = "[]",
      THEN conjunct2, THEN conjunct1, THEN mp, OF conjI[OF cfg(1) conjI[OF cfg(2)
        conjI[OF cfg(3) conjI[OF cfg(4) x1]]]]]
  note c3 = failure_only_logged[where env = env_configured and smtp = smtp_script
      and t = "''a@example.org''" and m = "''tea''" and w = "[Inl SMTPAuthenticationError]"
      and u = "''me@example.org''" and p = "''secret''" and w' = "[]",
      THEN conjunct2, THEN conjunct2, THEN conjunct1, THEN mp,
      OF conjI[OF cfg(1) conjI[OF cfg(2) conjI[OF cfg(3) conjI[OF cfg(4) x2]]]]]
  note c4 = failure_only_logged[where env = env_configured and smtp = smtp_script
      and t = "''a@example.org''" and m = "''tea''"
      and w = "[Inl (SMTPException ''421 try again later'')]"
      and u = "''me@example.org''" and p = "''secret''" and w' = "[]"
      and e = "''421 try again later''",
      THEN conjunct2, THEN conjunct2, THEN conjunct2, THEN conjunct1, THEN mp,
      OF conjI[OF cfg(1) conjI[OF cfg(2) conjI[OF cfg(3) conjI[OF cfg(4) x3]]]]]
  note c5 = failure_only_logged[where env = env_configured and smtp = smtp_script
      and t = "''a@example.org''" and m = "''tea''" and w = "[Inl (OtherException ''boom'')]"
      and u = "''me@example.org''" and p = "''secret''" and w' = "[]" and e = "''boom''",
      THEN conjunct2, THEN conjunct2, THEN conjunct2, THEN conjunct2, THEN conjunct1,
      THEN mp, OF conjI[OF cfg(1) conjI[OF cfg(2) conjI[OF cfg(3) conjI[OF cfg(4) x4]]]]]
  note c7 = failure_only_logged[where env = env_configured and smtp = smtp_script
      and now = 250 and db = "[reminder_a, reminder_b]"
      and w = "[Inl (SMTPException ''421 try again later''), Inr ()]"
      and before = "[reminder_a]" and R = reminder_b and after = "[]" and later = 300,
      THEN conjunct2, THEN conjunct2, THEN conjunct2, THEN conjunct2, THEN conjunct2,
      THEN conjunct2, THEN conjunct1, THEN mp, OF conjI[OF sel_b conjI[OF pre_b ok_b]]]
  note c8 = failure_only_logged[where env = env_configured and smtp = smtp_script
      and now = 250 and db = "[reminder_a, reminder_b]"
      and w = "[Inl (SMTPException ''421 try again later''), Inr ()]"
      and before = "[]" and R = reminder_a and after = "[reminder_b]" and later = 300,
      THEN conjunct2, THEN conjunct2, THEN conjunct2, THEN conjunct2, THEN conjunct2,
      THEN conjunct2, THEN conjunct2, THEN conjunct1, THEN mp,
      OF conjI[OF example_primary_key conjI[OF sel_a conjI[OF pre_a conjI[OF fail_a le]]]]]
  note c9 = failure_only_logged[where env = env_unconfigured and smtp = smtp_script
      and now = 250 and db = "[reminder_a, reminder_b]" and w = "[Inr ()]",
      THEN conjunct2, THEN conjunct2, THEN conjunct2, THEN conjunct2, THEN conjunct2,
      THEN conjunct2, THEN conjunct2, THEN conjunct2, THEN mp, OF h]
  from h c1 cfg x1 c2 x2 c3 x3 c4 x4 c5 example_primary_key sel_a pre_a fail_a le c8
    sel_b pre_b ok_b c7 c9
  show ?thesis by (intro conjI) (elim conjE, assumption)+
qed

text \<open>
  Claim C10. The mail helper returns a boolean on every input. It returns true exactly
  when both credentials are set and not empty and the exchange with the mail server
  completes without an exception. In every other case it returns false: with a
  credential missing the server is not contacted and the world is as before; and whatever
  exception the exchange raises, a failed authentication, another SMTP error or any other
  exception, the helper ends with false, having logged one record for it, and the caller
  goes on in the world the exchange left.
\<close>

theorem send_email_total:
  "fst (send_email smtp env t m w)
     = (\<exists>u p. env ''EMAIL_USER'' = Some u \<and> env ''EMAIL_PASS'' = Some p \<and> u \<noteq> [] \<and> p \<noteq> []
          \<and> fst (smtp u p t m w) = Inr ())
   \<and> (falsy (env ''EMAIL_USER'') \<or> falsy (env ''EMAIL_PASS'') \<longrightarrow>
        send_email smtp env t m w = (False, [Error_not_configured], w))
   \<and> (\<forall>u p e. env ''EMAIL_USER'' = Some u \<and> env ''EMAIL_PASS'' = Some p \<and> u \<noteq> [] \<and> p \<noteq> []
          \<and> fst (smtp u p t m w) = Inl e \<longrightarrow>
        fst (send_email smtp env t m w) = False
        \<and> length (fst (snd (send_email smtp env t m w))) = 1
        \<and> snd (snd (send_email smtp env t m w)) = snd (smtp u p t m w))"
proof (intro conjI allI impI)
  show "fst (send_email smtp env t m w)
     = (\<exists>u p. env ''EMAIL_USER'' = Some u \<and> env ''EMAIL_PASS'' = Some p \<and> u \<noteq> [] \<and> p \<noteq> []
          \<and> fst (smtp u p t m w) = Inr ())"
  proof (cases "falsy (env ''EMAIL_USER'') \<or> falsy (env ''EMAIL_PASS'')")
    case True
    from send_email_unconfigured[OF True, of smtp t m w] True show ?thesis by auto
  next
    case False
    then obtain u p where c: "env ''EMAIL_USER'' = Some u" "env ''EMAIL_PASS'' = Some p"
      "u \<noteq> []" "p \<noteq> []"
      by (cases "env ''EMAIL_USER''"; cases "env ''EMAIL_PASS''") auto
    obtain res w1 where x: "smtp u p t m w = (res, w1)" by (cases "smtp u p t m w") auto
    from send_email_configured[OF c, of smtp t m w] x c show ?thesis
      by (cases res) (auto split: exc.splits)
  qed
next
  assume "falsy (env ''EMAIL_USER'') \<or> falsy (env ''EMAIL_PASS'')"
  then show "send_email smtp env t m w = (False, [Error_not_configured], w)"
    by (rule send_email_unconfigured)
next
  fix u p e
  assume a: "env ''EMAIL_USER'' = Some u \<and> env ''EMAIL_PASS'' = Some p \<and> u \<noteq> [] \<and> p \<noteq> []
          \<and> fst (smtp u p t m w) = Inl e"
  then have c: "env ''EMAIL_USER'' = Some u" "env ''EMAIL_PASS'' = Some p" "u \<noteq> []" "p \<noteq> []"
    by simp_all
  obtain res w1 where x: "smtp u p t m w = (res, w1)" by (cases "smtp u p t m w") auto
  with a have r: "res = Inl e" by simp
  from send_email_configured[OF c, of smtp t m w] x r
  have "fst (send_email smtp env t m w) = False
        \<and> length (fst (snd (send_email smtp env t m w))) = 1
        \<and> snd (snd (send_email smtp env t m w)) = snd (smtp u p t m w)"
    by (cases e) simp_all
  then show "fst (send_email smtp env t m w) = False"
    and "length (fst (snd (send_email smtp env t m w))) = 1"
    and "snd (snd (send_email smtp env t m w)) = snd (smtp u p t m w)" by simp_all
qed

theorem send_email_total_witness:
  "(falsy (env_unconfigured ''EMAIL_USER'') \<or> falsy (env_unconfigured ''EMAIL_PASS''))
   \<and> send_email smtp_script env_unconfigured ''a@example.org'' ''tea'' [Inr ()]
       = (False, [Error_not_configured], [Inr ()])
   \<and> env_configured ''EMAIL_USER'' = Some ''me@example.org''
   \<and> env_configured ''EMAIL_PASS'' = Some ''secret''
   \<and> ''me@example.org'' \<noteq> [] \<and> ''secret'' \<noteq> []
   \<and> fst (smtp_script ''me@example.org'' ''secret'' ''a@example.org'' ''tea''
        [Inl SMTPAuthenticationError, Inr ()]) = Inl SMTPAuthenticationError
   \<and> fst (send_email smtp_script env_configured ''a@example.org'' ''tea''
        [Inl SMTPAuthenticationError, Inr ()]) = False
   \<and> snd (snd (send_email smtp_script env_configured ''a@example.org'' ''tea''
        [Inl SMTPAuthenticationError, Inr ()]))
       = snd (smtp_script ''me@example.org'' ''secret'' ''a@example.org'' ''tea''
        [Inl SMTPAuthenticationError, Inr ()])"
proof -
  have h: "falsy (env_unconfigured ''EMAIL_USER'') \<or> falsy (env_unconfigured ''EMAIL_PASS'')"
    by (simp add: env_unconfigured_def)
  have g: "env_configured ''EMAIL_USER'' = Some ''me@example.org''
      \<and> env_configured ''EMAIL_PASS'' = Some ''secret''
      \<and> ''me@example.org'' \<noteq> [] \<and> ''secret'' \<noteq> []
      \<and> fst (smtp_script ''me@example.org'' ''secret'' ''a@example.org'' ''tea''
        [Inl SMTPAuthenticationError, Inr ()]) = Inl SMTPAuthenticationError"
    by (simp add: env_configured_def smtp_script_def)
  note t1 = send_email_total[where env = env_unconfigured and smtp = smtp_script
      and t = "''a@example.org''" and m = "''tea''" and w = "[Inr ()]",
      THEN conjunct2, THEN conjunct1, THEN mp, OF h]
  note t2 = send_email_total[where env = env_configured and smtp = smtp_script
      and t = "''a@example.org''" and m = "''tea''"
      and w = "[Inl SMTPAuthenticationError, Inr ()]",
      THEN conjunct2, THEN conjunct2, THEN spec, THEN spec, THEN spec, THEN mp, OF g]
  from h g t1 t2 show ?thesis by (intro conjI) (elim conjE, assumption)+
qed

end
